theory Spec2Isabelle
  imports Main
begin

section \<open>JavaScript values, errors and the operations the script applies to them\<close>

text \<open>
  The script \<^verbatim>\<open>tsc_mr_ohs27_auto_ach_email.js\<close> is a NetSuite Map/Reduce script with the
  four entry points \<^verbatim>\<open>getInputData\<close>, \<^verbatim>\<open>map\<close>, \<^verbatim>\<open>reduce\<close> and \<^verbatim>\<open>summarize\<close>.
  Two revisions are under \<^verbatim>\<open>src/\<close>; the later one (\<^verbatim>\<open>src/unnamed/part_000\<close>, with the
  \<^verbatim>\<open>SKIPPED_RECORDS\<close> and \<^verbatim>\<open>ERROR_RECORDS\<close> keys and a non-empty \<^verbatim>\<open>summarize\<close>) is the
  one embedded here, and the line numbers below are its lines. Its \<^verbatim>\<open>getInputData\<close>,
  \<^verbatim>\<open>searchRelatedEmailTemplate\<close>, \<^verbatim>\<open>generateIndividualPaymentVoucher\<close> and the part of
  \<^verbatim>\<open>reduce\<close> after the reserved-key branch are the same text in both.

  A thrown exception is a value of \<open>js_error\<close>; a computation that may throw returns
  \<open>js_error + 'a\<close> with \<open>Inl\<close> the exception. The message texts of the engine's own
  exceptions are engine-defined; the ones below stand for them and nothing relies on
  their wording.
\<close>

datatype js_error =
    SyntaxError string
  | TypeError string
  | ReferenceError string
  | Error string

fun message :: "js_error \<Rightarrow> string" where
  "message (SyntaxError m) = m"
| "message (TypeError m) = m"
| "message (ReferenceError m) = m"
| "message (Error m) = m"

definition bindE :: "'e + 'a \<Rightarrow> ('a \<Rightarrow> 'e + 'b) \<Rightarrow> 'e + 'b" where
  "bindE m f = (case m of Inl e \<Rightarrow> Inl e | Inr x \<Rightarrow> f x)"

text \<open>
  The values the script handles are what \<^verbatim>\<open>JSON.parse\<close> returns, plus \<^verbatim>\<open>undefined\<close>
  (the result of reading a property that is not there) and built-in functions (reading
  \<^verbatim>\<open>values\<close> from an array gives \<^verbatim>\<open>Array.prototype.values\<close>). A number is held as the
  text \<^verbatim>\<open>String(n)\<close> gives for it, which is all the script ever does with a number
  besides testing it for zero. An object is the list of its own properties; a read
  takes the first entry for a key.
\<close>

datatype jsval =
    JUndefined
  | JNull
  | JBool bool
  | JNum string
  | JStr string
  | JArr "jsval list"
  | JObj "(string \<times> jsval) list"
  | JBuiltin string

text \<open>\<^verbatim>\<open>!v\<close> is true exactly for the falsy values.\<close>

fun truthy :: "jsval \<Rightarrow> bool" where
  "truthy JUndefined = False"
| "truthy JNull = False"
| "truthy (JBool b) = b"
| "truthy (JNum n) = (n \<noteq> ''0'' \<and> n \<noteq> ''NaN'')"
| "truthy (JStr s) = (s \<noteq> [])"
| "truthy (JArr xs) = True"
| "truthy (JObj kvs) = True"
| "truthy (JBuiltin f) = True"

text \<open>
  \<^verbatim>\<open>v.k\<close> and \<^verbatim>\<open>v[k]\<close>: a TypeError on \<^verbatim>\<open>undefined\<close> and \<^verbatim>\<open>null\<close>, the own property
  of an object, and \<^verbatim>\<open>undefined\<close> otherwise, except for what the prototypes define. Of
  the names the script reads (\<^verbatim>\<open>values account entity value text trandate tranid
  email.vendor postingperiod orderId recordId accountId entityId errorNote\<close>) only \<^verbatim>\<open>values\<close>
  is defined by a prototype, that of arrays.
\<close>

fun get_prop :: "jsval \<Rightarrow> string \<Rightarrow> js_error + jsval" where
  "get_prop JUndefined k = Inl (TypeError ''Cannot read properties of undefined'')"
| "get_prop JNull k = Inl (TypeError ''Cannot read properties of null'')"
| "get_prop (JObj kvs) k = Inr (case map_of kvs k of None \<Rightarrow> JUndefined | Some v \<Rightarrow> v)"
| "get_prop (JArr xs) k = Inr (if k = ''values'' then JBuiltin ''values'' else JUndefined)"
| "get_prop v k = Inr JUndefined"

text \<open>\<^verbatim>\<open>a || b\<close> on values.\<close>

definition js_or :: "jsval \<Rightarrow> jsval \<Rightarrow> jsval" where
  "js_or a b = (if truthy a then a else b)"

text \<open>\<^verbatim>\<open>xs.join(sep)\<close> on an array of strings.\<close>

fun join :: "string \<Rightarrow> string list \<Rightarrow> string" where
  "join sep [] = []"
| "join sep [x] = x"
| "join sep (x # y # ys) = x @ sep @ join sep (y # ys)"

text \<open>
  The string a value becomes when \<^verbatim>\<open>+\<close> joins it to a string. An object from
  \<^verbatim>\<open>JSON.parse\<close> gives \<^verbatim>\<open>[object Object]\<close>, unless it has an own property \<^verbatim>\<open>toString\<close>,
  which cannot be a function: then the conversion throws a TypeError. An array joins
  its elements with commas, \<^verbatim>\<open>null\<close> and \<^verbatim>\<open>undefined\<close> elements giving the empty string.
\<close>

fun sequenceE :: "('e + 'a) list \<Rightarrow> 'e + 'a list" where
  "sequenceE [] = Inr []"
| "sequenceE (m # ms) =
     (case m of Inl e \<Rightarrow> Inl e
      | Inr x \<Rightarrow> (case sequenceE ms of Inl e \<Rightarrow> Inl e | Inr xs \<Rightarrow> Inr (x # xs)))"

fun js_to_string :: "jsval \<Rightarrow> js_error + string" where
  "js_to_string JUndefined = Inr ''undefined''"
| "js_to_string JNull = Inr ''null''"
| "js_to_string (JBool b) = Inr (if b then ''true'' else ''false'')"
| "js_to_string (JNum n) = Inr n"
| "js_to_string (JStr s) = Inr s"
| "js_to_string (JArr xs) =
     (case sequenceE (map (\<lambda>x. if x = JNull \<or> x = JUndefined then Inr [] else js_to_string x) xs) of
        Inl e \<Rightarrow> Inl e
      | Inr ss \<Rightarrow> Inr (join '','' ss))"
| "js_to_string (JObj kvs) =
     (if ''toString'' \<in> fst ` set kvs
      then Inl (TypeError ''Cannot convert object to primitive value'')
      else Inr ''[object Object]'')"
| "js_to_string (JBuiltin f) = Inr (''function '' @ f @ ''() { [native code] }'')"

text \<open>
  A string handed to \<^verbatim>\<open>JSON.parse\<close> is represented by what parsing makes of it: a
  syntax error or a value. \<^verbatim>\<open>JSON.stringify\<close> drops the properties of an object whose
  value is \<^verbatim>\<open>undefined\<close> or a function, writes such array elements as \<^verbatim>\<open>null\<close>, and
  writes a number that is not finite as \<^verbatim>\<open>null\<close>, so the text it returns parses back to
  \<open>json_norm\<close> of its argument.
\<close>

datatype json_text = Malformed | Json jsval

fun JSON_parse :: "json_text \<Rightarrow> js_error + jsval" where
  "JSON_parse Malformed = Inl (SyntaxError ''Unexpected token in JSON'')"
| "JSON_parse (Json v) = Inr v"

fun unserialisable :: "jsval \<Rightarrow> bool" where
  "unserialisable JUndefined = True"
| "unserialisable (JBuiltin f) = True"
| "unserialisable v = False"

fun json_norm :: "jsval \<Rightarrow> jsval" where
  "json_norm (JArr xs) = JArr (map (\<lambda>x. if unserialisable x then JNull else json_norm x) xs)"
| "json_norm (JObj kvs) =
     JObj (map (\<lambda>(k, v). (k, json_norm v)) (filter (\<lambda>(k, v). \<not> unserialisable v) kvs))"
| "json_norm (JNum n) =
     (if n = ''NaN'' \<or> n = ''Infinity'' \<or> n = ''-Infinity'' then JNull else JNum n)"
| "json_norm v = v"

definition JSON_stringify :: "jsval \<Rightarrow> json_text" where
  "JSON_stringify v = Json (json_norm v)"

section \<open>The execution log\<close>

text \<open>
  A call of \<^verbatim>\<open>log.debug\<close>, \<^verbatim>\<open>log.audit\<close> or \<^verbatim>\<open>log.error\<close> appends an entry: level, title
  and what is logged with it, kept where it is an exception or a text the script
  composes, and opaque otherwise.
\<close>

datatype log_level = DEBUG | AUDIT | ERROR

datatype log_detail = Opaque | Text string | Caught js_error

type_synonym log_entry = "log_level \<times> string \<times> log_detail"

section \<open>The map stage\<close>

text \<open>
  \<^verbatim>\<open>mapContext\<close>: the key (the internal id of the payment) and the value (the search
  result as JSON text). \<^verbatim>\<open>mapContext.write\<close> appends a key/value pair to the output of
  the invocation.
\<close>

record mapContext =
  map_key :: string
  map_value :: json_text

type_synonym written = "string \<times> json_text"

text \<open>\<^verbatim>\<open>!values[k] || !values[k].value\<close> (lines 98 and 99).\<close>

definition no_value :: "jsval \<Rightarrow> string \<Rightarrow> js_error + bool" where
  "no_value values k =
     bindE (get_prop values k) (\<lambda>f.
       if \<not> truthy f then Inr True
       else bindE (get_prop f ''value'') (\<lambda>v. Inr (\<not> truthy v)))"

text \<open>\<^verbatim>\<open>if (c) missingFields.push(x)\<close>.\<close>

definition push_if :: "bool \<Rightarrow> 'a \<Rightarrow> 'a list \<Rightarrow> 'a list" where
  "push_if c x xs = (if c then xs @ [x] else xs)"

text \<open>Lines 95 to 102: the array \<^verbatim>\<open>missingFields\<close> after the five checks.\<close>

definition missingFields_of :: "jsval \<Rightarrow> js_error + string list" where
  "missingFields_of values =
     bindE (no_value values ''account'') (\<lambda>c1.
     bindE (no_value values ''entity'') (\<lambda>c2.
     bindE (get_prop values ''trandate'') (\<lambda>trandate.
     bindE (get_prop values ''tranid'') (\<lambda>tranid.
     bindE (get_prop values ''email.vendor'') (\<lambda>email.
       Inr (push_if (\<not> truthy email) ''vendor email''
           (push_if (\<not> truthy tranid) ''transaction ID''
           (push_if (\<not> truthy trandate) ''transaction date''
           (push_if c2 ''entity''
           (push_if c1 ''account'' []))))))))))"

text \<open>\<^verbatim>\<open>values[k] ? values[k][sub] || 'N/A' : 'N/A'\<close> (lines 117 to 119).\<close>

definition sub_or_NA :: "jsval \<Rightarrow> string \<Rightarrow> string \<Rightarrow> js_error + jsval" where
  "sub_or_NA values k sub =
     bindE (get_prop values k) (\<lambda>f.
       if truthy f then bindE (get_prop f sub) (\<lambda>v. Inr (js_or v (JStr ''N/A'')))
       else Inr (JStr ''N/A''))"

text \<open>Lines 114 to 122: the object written under \<^verbatim>\<open>SKIPPED_RECORDS\<close>.\<close>

definition skipped_entry :: "mapContext \<Rightarrow> jsval \<Rightarrow> string list \<Rightarrow> js_error + jsval" where
  "skipped_entry ctx values missingFields =
     bindE (get_prop values ''tranid'') (\<lambda>tranid.
     bindE (sub_or_NA values ''entity'' ''text'') (\<lambda>entity.
     bindE (sub_or_NA values ''account'' ''value'') (\<lambda>accountId.
     bindE (sub_or_NA values ''entity'' ''value'') (\<lambda>entityId.
       Inr (JObj
         [(''recordId'', JStr (map_key ctx)),
          (''tranid'', js_or tranid (JStr ''N/A'')),
          (''entity'', entity),
          (''accountId'', accountId),
          (''entityId'', entityId),
          (''errorNote'', JStr (''Missing required fields: '' @ join '', '' missingFields)),
          (''missingFields'', JArr (map JStr missingFields))])))))"

text \<open>
  Line 128: \<^verbatim>\<open>values.account.value + "_" + values.entity.value\<close>. The left operand is
  converted first, then the right one is read and converted.
\<close>

definition group_key_of :: "jsval \<Rightarrow> js_error + string" where
  "group_key_of values =
     bindE (get_prop values ''account'') (\<lambda>account.
     bindE (get_prop account ''value'') (\<lambda>av.
     bindE (js_to_string av) (\<lambda>a.
     bindE (get_prop values ''entity'') (\<lambda>entity.
     bindE (get_prop entity ''value'') (\<lambda>ev.
     bindE (js_to_string ev) (\<lambda>v.
       Inr (a @ ''_'' @ v)))))))"

text \<open>Lines 131 to 139: the normalized order object.\<close>

definition orderObj_of :: "mapContext \<Rightarrow> jsval \<Rightarrow> string \<Rightarrow> js_error + jsval" where
  "orderObj_of ctx values accountId =
     bindE (get_prop values ''trandate'') (\<lambda>trandate.
     bindE (get_prop values ''postingperiod'') (\<lambda>pp.
     bindE (if truthy pp then get_prop pp ''text'' else Inr (JStr [])) (\<lambda>postingPeriod.
     bindE (get_prop values ''tranid'') (\<lambda>tranid.
     bindE (get_prop values ''entity'') (\<lambda>entity.
     bindE (get_prop entity ''text'') (\<lambda>entityText.
     bindE (get_prop values ''email.vendor'') (\<lambda>email.
       Inr (JObj
         [(''orderId'', JStr (map_key ctx)),
          (''accountId'', JStr accountId),
          (''orderDate'', trandate),
          (''postingPeriod'', postingPeriod),
          (''orderNumber'', tranid),
          (''entity'', entityText),
          (''vendorEmail'', js_or email (JStr []))]))))))))"

text \<open>
  Lines 86 to 146, the body of the \<^verbatim>\<open>try\<close>: the log entries made, and either the
  exception that leaves the block or the pairs written.
\<close>

definition map_try :: "mapContext \<Rightarrow> log_entry list \<times> (js_error + written list)" where
  "map_try ctx =
     (let l0 = [(DEBUG, ''Map Input'', Opaque)] in
      case bindE (JSON_parse (map_value ctx)) (\<lambda>searchResult. get_prop searchResult ''values'') of
        Inl e \<Rightarrow> (l0, Inl e)
      | Inr values \<Rightarrow>
          (case missingFields_of values of
             Inl e \<Rightarrow> (l0, Inl e)
           | Inr missingFields \<Rightarrow>
               if missingFields \<noteq> [] then
                 (let l1 = l0 @ [(ERROR, ''Skipping record with missing required fields'',
                                  Text (''Record ID: '' @ map_key ctx @ '', Missing fields: ''
                                        @ join '', '' missingFields))] in
                  case skipped_entry ctx values missingFields of
                    Inl e \<Rightarrow> (l1, Inl e)
                  | Inr entry \<Rightarrow> (l1, Inr [(''SKIPPED_RECORDS'', JSON_stringify entry)]))
               else
                 (case bindE (group_key_of values) (\<lambda>accountId.
                         bindE (orderObj_of ctx values accountId) (\<lambda>orderObj.
                           Inr [(accountId, JSON_stringify orderObj)])) of
                    Inl e \<Rightarrow> (l0, Inl e)
                  | Inr ws \<Rightarrow> (l0, Inr ws))))"

text \<open>
  The \<^verbatim>\<open>catch (e)\<close> block of \<^verbatim>\<open>map\<close> (lines 147 to 166) reads the identifier \<^verbatim>\<open>values\<close>.
  \<^verbatim>\<open>values\<close> is declared with \<^verbatim>\<open>const\<close> inside the \<^verbatim>\<open>try\<close> block (line 92), so its scope
  is that block. What the catch block can see is its parameter \<^verbatim>\<open>e\<close>, the parameter
  \<^verbatim>\<open>mapContext\<close> of the function, the bindings of the enclosing module function (its six
  parameters, the four constants and the six functions) and the globals \<^verbatim>\<open>log\<close> and
  \<^verbatim>\<open>JSON\<close>. Reading an identifier that no enclosing scope binds throws a ReferenceError.
\<close>

definition module_scope :: "(string \<times> jsval) list" where
  "module_scope =
     [(''search'', JBuiltin ''search''), (''runtime'', JBuiltin ''runtime''),
      (''render'', JBuiltin ''render''), (''email'', JBuiltin ''email''),
      (''file'', JBuiltin ''file''), (''record'', JBuiltin ''record''),
      (''SCRIPT_PARAM_ELIGIBLE_ACH_PAYMENTS_SEARCH'', JStr ''custscript_tsc_ohs27_eligible_ach_paymen''),
      (''SCRIPT_PARAM_EMAIL_AUTHOR'', JStr ''custscript_tsc_ohs27_email_author''),
      (''SCRIPT_PARAM_PRINT_TEMPLATE_ID'', JStr ''custscript_tsc_ohs27_print_template_id''),
      (''VENDOR_PAYMENT_FIELD_EMAIL_SENT'', JStr ''custbody_tsc_ach_auto_email_sent''),
      (''getInputData'', JBuiltin ''getInputData''), (''map'', JBuiltin ''map''),
      (''reduce'', JBuiltin ''reduce''), (''summarize'', JBuiltin ''summarize''),
      (''searchRelatedEmailTemplate'', JBuiltin ''searchRelatedEmailTemplate''),
      (''generateIndividualPaymentVoucher'', JBuiltin ''generateIndividualPaymentVoucher''),
      (''log'', JBuiltin ''log''), (''JSON'', JBuiltin ''JSON'')]"

definition map_catch_scope :: "mapContext \<Rightarrow> js_error \<Rightarrow> (string \<times> jsval) list" where
  "map_catch_scope ctx e =
     [(''e'', JObj [(''message'', JStr (message e))]),
      (''mapContext'', JObj [(''key'', JStr (map_key ctx))])] @ module_scope"

definition lookup_var :: "(string \<times> jsval) list \<Rightarrow> string \<Rightarrow> js_error + jsval" where
  "lookup_var scope x =
     (case map_of scope x of
        None \<Rightarrow> Inl (ReferenceError (x @ '' is not defined''))
      | Some v \<Rightarrow> Inr v)"

text \<open>
  \<^verbatim>\<open>values && values[k] ? values[k] : 'N/A'\<close> and, with \<open>sub\<close>,
  \<^verbatim>\<open>values && values[k] ? values[k][sub] : 'N/A'\<close> (lines 153 to 156). Every occurrence of
  \<^verbatim>\<open>values\<close> is a read of the identifier in the scope of the catch block.
\<close>

definition guarded_read ::
  "(string \<times> jsval) list \<Rightarrow> string \<Rightarrow> string option \<Rightarrow> js_error + jsval" where
  "guarded_read scope k sub =
     bindE (lookup_var scope ''values'') (\<lambda>values.
     bindE (if truthy values then get_prop values k else Inr values) (\<lambda>c.
       if truthy c then
         bindE (lookup_var scope ''values'') (\<lambda>values'.
         bindE (get_prop values' k) (\<lambda>f.
           case sub of None \<Rightarrow> Inr f | Some s \<Rightarrow> get_prop f s))
       else Inr (JStr ''N/A'')))"

definition map_catch :: "mapContext \<Rightarrow> js_error \<Rightarrow> log_entry list \<times> (js_error + written list)" where
  "map_catch ctx e =
     (let scope = map_catch_scope ctx e in
      case bindE (guarded_read scope ''tranid'' None) (\<lambda>tranid.
           bindE (guarded_read scope ''entity'' (Some ''text'')) (\<lambda>entity.
           bindE (guarded_read scope ''account'' (Some ''value'')) (\<lambda>accountId.
           bindE (guarded_read scope ''entity'' (Some ''value'')) (\<lambda>entityId.
             Inr (JObj
               [(''recordId'', JStr (map_key ctx)),
                (''tranid'', tranid),
                (''entity'', entity),
                (''accountId'', accountId),
                (''entityId'', entityId),
                (''errorNote'', JStr (''Error processing record: '' @ message e)),
                (''error'', JStr (message e))]))))) of
        Inl e' \<Rightarrow> ([], Inl e')
      | Inr entry \<Rightarrow>
          ([(ERROR, ''Error processing record in map function'',
             Text (''Record ID: '' @ map_key ctx @ '', Error: '' @ message e))],
           Inr [(''ERROR_RECORDS'', JSON_stringify entry)]))"

text \<open>
  The function \<^verbatim>\<open>map\<close>: the \<^verbatim>\<open>try\<close> block, and the \<^verbatim>\<open>catch\<close> block on an exception.
  \<open>Inl\<close> is an exception that leaves the function.
\<close>

definition map_fn :: "mapContext \<Rightarrow> log_entry list \<times> (js_error + written list)" where
  "map_fn ctx =
     (case map_try ctx of
        (l, Inr ws) \<Rightarrow> (l, Inr ws)
      | (l, Inl e) \<Rightarrow> (case map_catch ctx e of (l', r) \<Rightarrow> (l @ l', r)))"

section \<open>What the specification calls a missing required field\<close>

text \<open>
  The five required fields, by the name the error note gives them and the path of
  properties that leads to them from \<^verbatim>\<open>values\<close>, in the order of the specification:
  account, vendor/entity, transaction date, transaction id, vendor email. A field is
  missing when following the path ends in no value or an empty one (\<^verbatim>\<open>undefined\<close>,
  \<^verbatim>\<open>null\<close>, the empty string, zero, \<^verbatim>\<open>false\<close>).
\<close>

definition required_fields :: "(string \<times> string list) list" where
  "required_fields =
     [(''account'', [''account'', ''value'']),
      (''entity'', [''entity'', ''value'']),
      (''transaction date'', [''trandate'']),
      (''transaction ID'', [''tranid'']),
      (''vendor email'', [''email.vendor''])]"

fun field_at :: "jsval \<Rightarrow> string list \<Rightarrow> jsval" where
  "field_at v [] = v"
| "field_at v (k # ks) = (case get_prop v k of Inl e \<Rightarrow> JUndefined | Inr f \<Rightarrow> field_at f ks)"

definition is_missing :: "jsval \<Rightarrow> string list \<Rightarrow> bool" where
  "is_missing values path = (\<not> truthy (field_at values path))"

section \<open>The collaborators of the script and the state they keep\<close>

text \<open>
  The NetSuite modules the script calls are parameters of the model. Each call that can
  throw returns the exception or the result.
  \<^item> \<open>getParameter\<close>: \<^verbatim>\<open>runtime.getCurrentScript().getParameter({name})\<close>; \<open>None\<close> is
    \<^verbatim>\<open>null\<close>, the value of a parameter that is not set.
  \<^item> \<open>search_load\<close>: \<^verbatim>\<open>search.load({id}).runPaged().count\<close>.
  \<^item> \<open>template_search\<close>: the search on \<^verbatim>\<open>customrecord_tsc_acct_email_template_map\<close> filtered
    by the account, \<^verbatim>\<open>run().getRange({start: 0, end: 1})\<close>, each result given by its
    \<^verbatim>\<open>custrecord_tsc_email_template_id\<close>.
  \<^item> \<open>render_pdf\<close>: \<^verbatim>\<open>render.create\<close>, \<^verbatim>\<open>setTemplateByScriptId\<close>, \<^verbatim>\<open>addRecord\<close> of the loaded
    vendor payment and \<^verbatim>\<open>renderAsPdf().getContents()\<close>, from the print template parameter
    and the transaction id.
  \<^item> \<open>mergeEmail\<close>: \<^verbatim>\<open>render.mergeEmail\<close> from the template id, the author and the vendor
    (the script passes \<^verbatim>\<open>parseInt\<close> of the last two), giving subject and body.
  \<^item> \<open>email_send\<close>: \<^verbatim>\<open>email.send\<close>; \<open>Some e\<close> when the transport throws.
  \<^item> \<open>record_load\<close>, \<open>record_setValue\<close>, \<open>record_save\<close>: \<^verbatim>\<open>record.load\<close> of a vendor
    payment, \<^verbatim>\<open>setValue\<close> of \<^verbatim>\<open>custbody_tsc_ach_auto_email_sent\<close> on it and \<^verbatim>\<open>save\<close>;
    \<open>Some e\<close> when the call throws.
\<close>

record pdf_file =
  file_name :: string
  file_contents :: string

record emailObj =
  author :: "string option"
  recipients :: "string option"
  subject :: string
  body :: string
  attachments :: "pdf_file list"

record collaborators =
  getParameter :: "string \<Rightarrow> string option"
  search_load :: "string option \<Rightarrow> js_error + nat"
  template_search :: "string option \<Rightarrow> js_error + string list"
  render_pdf :: "string option \<Rightarrow> jsval \<Rightarrow> js_error + string"
  mergeEmail :: "string \<Rightarrow> string option \<Rightarrow> string option \<Rightarrow> js_error + (string \<times> string)"
  email_send :: "emailObj \<Rightarrow> js_error option"
  record_load :: "jsval \<Rightarrow> js_error option"
  record_setValue :: "jsval \<Rightarrow> js_error option"
  record_save :: "jsval \<Rightarrow> js_error option"

text \<open>
  What the run changes outside the script: the emails the transport has accepted, the
  \<^verbatim>\<open>custbody_tsc_ach_auto_email_sent\<close> flag of each vendor payment as saved, and the
  execution log.
\<close>

record world =
  sent :: "emailObj list"
  email_sent_flag :: "jsval \<Rightarrow> bool"
  logs :: "log_entry list"

definition add_logs :: "world \<Rightarrow> log_entry list \<Rightarrow> world" where
  "add_logs w l = w\<lparr>logs := logs w @ l\<rparr>"

definition SCRIPT_PARAM_ELIGIBLE_ACH_PAYMENTS_SEARCH :: string where
  "SCRIPT_PARAM_ELIGIBLE_ACH_PAYMENTS_SEARCH = ''custscript_tsc_ohs27_eligible_ach_paymen''"

definition SCRIPT_PARAM_EMAIL_AUTHOR :: string where
  "SCRIPT_PARAM_EMAIL_AUTHOR = ''custscript_tsc_ohs27_email_author''"

definition SCRIPT_PARAM_PRINT_TEMPLATE_ID :: string where
  "SCRIPT_PARAM_PRINT_TEMPLATE_ID = ''custscript_tsc_ohs27_print_template_id''"

text \<open>\<^verbatim>\<open>!p\<close> on a parameter value: true for \<^verbatim>\<open>null\<close> and the empty string.\<close>

definition not_set :: "string option \<Rightarrow> bool" where
  "not_set p = (case p of None \<Rightarrow> True | Some s \<Rightarrow> s = [])"

text \<open>A string or \<^verbatim>\<open>null\<close>, and a string or \<^verbatim>\<open>undefined\<close>, inside a text.\<close>

definition or_null :: "string option \<Rightarrow> string" where
  "or_null p = (case p of None \<Rightarrow> ''null'' | Some s \<Rightarrow> s)"

definition or_undefined :: "string option \<Rightarrow> string" where
  "or_undefined p = (case p of None \<Rightarrow> ''undefined'' | Some s \<Rightarrow> s)"

section \<open>getInputData\<close>

text \<open>
  Lines 25 to 67. The result is the search that was loaded (given by its id), or the
  exception that \<^verbatim>\<open>getInputData\<close> rethrows after logging it.
\<close>

definition getInputData :: "collaborators \<Rightarrow> log_entry list \<times> (js_error + string option)" where
  "getInputData env =
     (let searchId = getParameter env SCRIPT_PARAM_ELIGIBLE_ACH_PAYMENTS_SEARCH;
          printTemplateId = getParameter env SCRIPT_PARAM_PRINT_TEMPLATE_ID;
          authorId = getParameter env SCRIPT_PARAM_EMAIL_AUTHOR;
          l0 = [(AUDIT, ''Script Parameters'', Opaque)];
          missingParams =
            push_if (not_set authorId) ''Email Author''
           (push_if (not_set printTemplateId) ''Print Template ID''
           (push_if (not_set searchId) ''Eligible ACH Payments Search'' []))
      in case (if missingParams \<noteq> [] then
                 Inl (Error (''Required script parameter(s) not configured: ''
                             @ join '', '' missingParams))
               else
                 (case search_load env searchId of
                    Inl loadError \<Rightarrow>
                      Inl (Error (''Invalid search ID ('' @ or_null searchId @ ''): ''
                                  @ message loadError))
                  | Inr resultCount \<Rightarrow> Inr searchId)) of
           Inl e \<Rightarrow> (l0 @ [(ERROR, ''Error in getInputData'', Caught e)], Inl e)
         | Inr searchObj \<Rightarrow> (l0 @ [(AUDIT, ''Input Data Records'', Opaque)], Inr searchObj))"

section \<open>The reduce stage\<close>

text \<open>
  \<^verbatim>\<open>s.split(c)\<close> for a one-character separator, and \<^verbatim>\<open>xs[i]\<close> on the array it returns
  (\<open>None\<close> is \<^verbatim>\<open>undefined\<close>, the value of an index that is out of range).
\<close>

fun split_on :: "char \<Rightarrow> string \<Rightarrow> string list" where
  "split_on c [] = [[]]"
| "split_on c (x # xs) =
     (if x = c then [] # split_on c xs
      else (case split_on c xs of [] \<Rightarrow> [[x]] | p # ps \<Rightarrow> (x # p) # ps))"

definition array_at :: "'a list \<Rightarrow> nat \<Rightarrow> 'a option" where
  "array_at xs i = (if i < length xs then Some (xs ! i) else None)"

text \<open>\<^verbatim>\<open>key.split('_')[i]\<close> (lines 207 and 208).\<close>

definition key_part :: "string \<Rightarrow> nat \<Rightarrow> string option" where
  "key_part k i = array_at (split_on CHR ''_'' k) i"

text \<open>Lines 406 to 433.\<close>

definition searchRelatedEmailTemplate ::
  "collaborators \<Rightarrow> string option \<Rightarrow> log_entry list \<times> (js_error + string)" where
  "searchRelatedEmailTemplate env accountId =
     (case (case template_search env accountId of
              Inl e \<Rightarrow> Inl e
            | Inr searchResult \<Rightarrow>
                (case searchResult of
                   t # rest \<Rightarrow> Inr t
                 | [] \<Rightarrow> Inl (Error (''No email template found for account ID: ''
                                     @ or_undefined accountId)))) of
        Inl e \<Rightarrow> ([(ERROR, ''searchRelatedEmailTemplate'', Caught e)], Inl e)
      | Inr t \<Rightarrow> ([], Inr t))"

text \<open>
  Lines 435 to 477. Each transaction has its own \<^verbatim>\<open>try\<close>: a failure is logged and the
  loop goes on without a file for it. The title of that log entry is built with \<^verbatim>\<open>+\<close>
  from the transaction id; should that conversion throw, the exception leaves the
  function. \<^verbatim>\<open>file.create\<close> makes the file object; the script does not save it.
\<close>

fun generateIndividualPaymentVoucher ::
  "collaborators \<Rightarrow> jsval list \<Rightarrow> log_entry list \<times> (js_error + pdf_file list)" where
  "generateIndividualPaymentVoucher env [] = ([], Inr [])"
| "generateIndividualPaymentVoucher env (transactionId # rest) =
     (case bindE (render_pdf env (getParameter env SCRIPT_PARAM_PRINT_TEMPLATE_ID) transactionId)
             (\<lambda>contents. bindE (js_to_string transactionId)
             (\<lambda>s. Inr \<lparr>file_name = ''ACH_Payment_'' @ s @ ''.pdf'', file_contents = contents\<rparr>)) of
        Inr pdfFile \<Rightarrow>
          (case generateIndividualPaymentVoucher env rest of
             (l, Inr pdfFiles) \<Rightarrow> (l, Inr (pdfFile # pdfFiles))
           | (l, Inl e) \<Rightarrow> (l, Inl e))
      | Inl e \<Rightarrow>
          (case js_to_string transactionId of
             Inl e' \<Rightarrow> ([], Inl e')
           | Inr s \<Rightarrow>
               (case generateIndividualPaymentVoucher env rest of
                  (l, r) \<Rightarrow> ((ERROR, ''Error generating PDF for transaction '' @ s, Caught e) # l, r))))"

text \<open>
  \<^verbatim>\<open>reduceContext\<close>: a key and all the values the map stage wrote under it.
\<close>

record reduceContext =
  reduce_key :: string
  reduce_values :: "json_text list"

definition reserved_key :: "string \<Rightarrow> bool" where
  "reserved_key k = (k = ''SKIPPED_RECORDS'' \<or> k = ''ERROR_RECORDS'')"

text \<open>Lines 192 to 201: the values of a reserved key, parsed and written back as one array.\<close>

definition pass_through :: "reduceContext \<Rightarrow> js_error + written list" where
  "pass_through ctx =
     bindE (sequenceE (map JSON_parse (reduce_values ctx))) (\<lambda>records.
       Inr [(reduce_key ctx, JSON_stringify (JArr records))])"

text \<open>Lines 214 to 219: the \<^verbatim>\<open>orderId\<close> of every value, in order.\<close>

definition transactionsId_of :: "json_text list \<Rightarrow> js_error + jsval list" where
  "transactionsId_of vals =
     sequenceE (map (\<lambda>v. bindE (JSON_parse v) (\<lambda>orderObj. get_prop orderObj ''orderId'')) vals)"

text \<open>
  Lines 255 to 264 for one payment: load, set the flag, save. The flag of the stored
  record changes when \<^verbatim>\<open>save\<close> returns.
\<close>

definition persist_error :: "collaborators \<Rightarrow> jsval \<Rightarrow> js_error option" where
  "persist_error env transactionId =
     (case record_load env transactionId of
        Some e \<Rightarrow> Some e
      | None \<Rightarrow>
          (case record_setValue env transactionId of
             Some e \<Rightarrow> Some e
           | None \<Rightarrow> record_save env transactionId))"

text \<open>
  Lines 254 to 265, the \<^verbatim>\<open>forEach\<close> over the transaction ids. An exception in the
  callback ends the loop: the payments after it are not visited.
\<close>

fun mark_email_sent :: "collaborators \<Rightarrow> jsval list \<Rightarrow> world \<Rightarrow> world \<times> js_error option" where
  "mark_email_sent env [] w = (w, None)"
| "mark_email_sent env (transactionId # rest) w =
     (case persist_error env transactionId of
        Some e \<Rightarrow> (w, Some e)
      | None \<Rightarrow>
          mark_email_sent env rest
            (w\<lparr>email_sent_flag := (email_sent_flag w)(transactionId := True)\<rparr>))"

text \<open>
  Lines 251 to 268: the inner \<^verbatim>\<open>try\<close>, with the send and the loop in the same block and
  one \<^verbatim>\<open>catch\<close> that logs under the title \<^verbatim>\<open>sendEmail\<close>.
\<close>

definition send_and_mark :: "collaborators \<Rightarrow> emailObj \<Rightarrow> jsval list \<Rightarrow> world \<Rightarrow> world" where
  "send_and_mark env email transactionsId w =
     (case email_send env email of
        Some sendEmailError \<Rightarrow> add_logs w [(ERROR, ''sendEmail'', Caught sendEmailError)]
      | None \<Rightarrow>
          (case mark_email_sent env transactionsId (w\<lparr>sent := sent w @ [email]\<rparr>) of
             (w', None) \<Rightarrow> w'
           | (w', Some sendEmailError) \<Rightarrow>
               add_logs w' [(ERROR, ''sendEmail'', Caught sendEmailError)]))"

text \<open>
  Lines 206 to 268, what \<^verbatim>\<open>reduce\<close> does for a key that is not reserved: the world
  after it, and the exception that leaves the outer \<^verbatim>\<open>try\<close> block, if any.
\<close>

definition notify_group :: "collaborators \<Rightarrow> reduceContext \<Rightarrow> world \<Rightarrow> world \<times> js_error option" where
  "notify_group env ctx w =
     (let w1 = add_logs w [(DEBUG, reduce_key ctx, Opaque)];
          vendorId = key_part (reduce_key ctx) 1;
          accountId = key_part (reduce_key ctx) 0
      in case searchRelatedEmailTemplate env accountId of
           (l, Inl e) \<Rightarrow> (add_logs w1 l, Some e)
         | (l, Inr emailTemplateId) \<Rightarrow>
             (let w2 = add_logs w1 (l @ [(DEBUG, ''Email Template ID'', Opaque)]);
                  authorId = getParameter env SCRIPT_PARAM_EMAIL_AUTHOR;
                  w3 = add_logs w2 [(DEBUG, ''Email Author ID'', Opaque)]
              in case transactionsId_of (reduce_values ctx) of
                   Inl e \<Rightarrow> (w3, Some e)
                 | Inr transactionsId \<Rightarrow>
                     (let w4 = add_logs w3 [(DEBUG, ''Transactions ID'', Opaque)]
                      in case generateIndividualPaymentVoucher env transactionsId of
                           (l', Inl e) \<Rightarrow> (add_logs w4 l', Some e)
                         | (l', Inr pdfFiles) \<Rightarrow>
                             (let w5 = add_logs w4 (l' @ [(DEBUG, ''Generated PDF Files'', Opaque)])
                              in case mergeEmail env emailTemplateId authorId vendorId of
                                   Inl e \<Rightarrow> (w5, Some e)
                                 | Inr (mergedSubject, mergedBody) \<Rightarrow>
                                     (let email = \<lparr>author = authorId, recipients = vendorId,
                                                    subject = mergedSubject, body = mergedBody,
                                                    attachments = pdfFiles\<rparr>;
                                          w6 = add_logs w5 [(DEBUG, ''Email Object'', Opaque)]
                                      in (send_and_mark env email transactionsId w6, None))))))"

text \<open>
  Lines 184 to 273, the function \<^verbatim>\<open>reduce\<close>: the world after it and the pairs it writes
  for the summarize stage. The outer \<^verbatim>\<open>catch\<close> logs under the title \<^verbatim>\<open>reduce\<close>.
\<close>

definition reduce :: "collaborators \<Rightarrow> reduceContext \<Rightarrow> world \<Rightarrow> world \<times> written list" where
  "reduce env ctx w =
     (if reserved_key (reduce_key ctx) then
        (case pass_through ctx of
           Inl e \<Rightarrow> (add_logs w [(ERROR, ''reduce'', Caught e)], [])
         | Inr ws \<Rightarrow> (w, ws))
      else
        (case notify_group env ctx w of
           (w', None) \<Rightarrow> (w', [])
         | (w', Some e) \<Rightarrow> (add_logs w' [(ERROR, ''reduce'', Caught e)], [])))"

text \<open>
  The function \<^verbatim>\<open>reduce\<close> of the earlier revision (lines 143 to 212 of
  \<^verbatim>\<open>tsc_mr_ohs27_auto_ach_email.js\<close>): the same text without the branch for the reserved
  keys, and without a write.
\<close>

definition reduce_first_revision :: "collaborators \<Rightarrow> reduceContext \<Rightarrow> world \<Rightarrow> world" where
  "reduce_first_revision env ctx w =
     (case notify_group env ctx w of
        (w', None) \<Rightarrow> w'
      | (w', Some e) \<Rightarrow> add_logs w' [(ERROR, ''reduce'', Caught e)])"

section \<open>The summarize stage\<close>

text \<open>
  \<^verbatim>\<open>summaryContext\<close>: the pairs the reduce stage wrote (\<^verbatim>\<open>summaryContext.output\<close>) and
  \<^verbatim>\<open>summaryContext.inputSummary.totalRecords\<close>.
\<close>

record summaryContext =
  summary_output :: "written list"
  totalRecords :: jsval

text \<open>
  The object \<^verbatim>\<open>summarize\<close> builds and logs under the title \<^verbatim>\<open>Processing Summary\<close>.
  The two counts are \<^verbatim>\<open>length\<close>s of arrays, the details are the objects its \<^verbatim>\<open>.map\<close>
  calls build.
\<close>

record summaryReport =
  totalRecordsProcessed :: jsval
  successfullyProcessed :: nat
  skippedRecords_count :: nat
  skippedRecords_details :: "jsval list"
  errorRecords_count :: nat
  errorRecords_details :: "jsval list"

text \<open>
  \<^verbatim>\<open>v.length\<close>: a TypeError on \<^verbatim>\<open>null\<close> and \<^verbatim>\<open>undefined\<close>, the length of an array or a
  string, \<^verbatim>\<open>undefined\<close> (\<open>None\<close>) otherwise.
\<close>

fun js_length :: "jsval \<Rightarrow> js_error + nat option" where
  "js_length JUndefined = Inl (TypeError ''Cannot read properties of undefined'')"
| "js_length JNull = Inl (TypeError ''Cannot read properties of null'')"
| "js_length (JArr xs) = Inr (Some (length xs))"
| "js_length (JStr s) = Inr (Some (length s))"
| "js_length v = Inr None"

text \<open>
  Lines 302 to 314, the callback of \<^verbatim>\<open>output.iterator().each\<close> over the pairs, on the
  three variables \<^verbatim>\<open>skippedRecords\<close>, \<^verbatim>\<open>errorRecords\<close> and \<^verbatim>\<open>processedRecordsCount\<close>. The
  \<^verbatim>\<open>log.audit\<close> calls read \<^verbatim>\<open>.length\<close> of what was parsed.
\<close>

fun scan_output :: "written list \<Rightarrow> jsval \<times> jsval \<times> nat \<Rightarrow> js_error + jsval \<times> jsval \<times> nat" where
  "scan_output [] acc = Inr acc"
| "scan_output ((k, v) # rest) (skippedRecords, errorRecords, processedRecordsCount) =
     (if k = ''SKIPPED_RECORDS'' then
        bindE (JSON_parse v) (\<lambda>parsed.
        bindE (js_length parsed) (\<lambda>n.
          scan_output rest (parsed, errorRecords, processedRecordsCount)))
      else if k = ''ERROR_RECORDS'' then
        bindE (JSON_parse v) (\<lambda>parsed.
        bindE (js_length parsed) (\<lambda>n.
          scan_output rest (skippedRecords, parsed, processedRecordsCount)))
      else scan_output rest (skippedRecords, errorRecords, processedRecordsCount + 1))"

text \<open>Lines 322 to 329 and 333 to 340: the callback of \<^verbatim>\<open>.map\<close>.\<close>

definition detail_of :: "jsval \<Rightarrow> js_error + jsval" where
  "detail_of r =
     bindE (get_prop r ''recordId'') (\<lambda>recordId.
     bindE (get_prop r ''tranid'') (\<lambda>tranid.
     bindE (get_prop r ''entity'') (\<lambda>entity.
     bindE (get_prop r ''accountId'') (\<lambda>accountId.
     bindE (get_prop r ''entityId'') (\<lambda>entityId.
     bindE (get_prop r ''errorNote'') (\<lambda>errorNote.
       Inr (JObj [(''recordId'', recordId), (''tranid'', tranid), (''entity'', entity),
                  (''accountId'', accountId), (''entityId'', entityId),
                  (''errorNote'', errorNote)])))))))"

text \<open>
  \<^verbatim>\<open>{count: records.length, details: records.map(...)}\<close>. The values here come from
  \<^verbatim>\<open>JSON.parse\<close>, so only an array has a \<^verbatim>\<open>map\<close> that can be called; on anything else the
  expression throws a TypeError.
\<close>

definition count_and_details :: "jsval \<Rightarrow> js_error + nat \<times> jsval list" where
  "count_and_details records =
     (case records of
        JArr xs \<Rightarrow> bindE (sequenceE (map detail_of xs)) (\<lambda>ds. Inr (length xs, ds))
      | _ \<Rightarrow> bindE (js_length records) (\<lambda>n. Inl (TypeError ''records.map is not a function'')))"

text \<open>
  Lines 297 to 344 of \<^verbatim>\<open>summarize\<close>: the \<^verbatim>\<open>summaryReport\<close> it builds and logs, or the
  exception that reaches the \<^verbatim>\<open>catch\<close> of line 401 before there is a report. The
  notification email that follows (lines 347 to 394) reads the report and the two arrays
  and changes none of them; it is not part of the model.
\<close>

definition summarize :: "summaryContext \<Rightarrow> js_error + summaryReport" where
  "summarize summaryContext =
     bindE (scan_output (summary_output summaryContext) (JArr [], JArr [], 0))
       (\<lambda>(skippedRecords, errorRecords, processedRecordsCount).
     bindE (count_and_details skippedRecords) (\<lambda>(skippedCount, skippedDetails).
     bindE (count_and_details errorRecords) (\<lambda>(errorCount, errorDetails).
       Inr \<lparr>totalRecordsProcessed = totalRecords summaryContext,
            successfullyProcessed = processedRecordsCount,
            skippedRecords_count = skippedCount,
            skippedRecords_details = skippedDetails,
            errorRecords_count = errorCount,
            errorRecords_details = errorDetails\<rparr>)))"

section \<open>The stages of a run\<close>

text \<open>
  The Map/Reduce framework calls the entry points. It calls \<^verbatim>\<open>map\<close> once for every
  search result and keeps what the invocations that returned wrote (an invocation
  that throws is recorded by the framework and the run goes on); it calls \<^verbatim>\<open>reduce\<close>
  once for every distinct key written, with all the values written under it in the
  order they were written; it hands all that \<^verbatim>\<open>reduce\<close> wrote to \<^verbatim>\<open>summarize\<close>. When
  \<^verbatim>\<open>getInputData\<close> throws there is no map, reduce or summarize stage.
\<close>

definition map_stage :: "mapContext list \<Rightarrow> log_entry list \<times> written list" where
  "map_stage inputs =
     (concat (map (\<lambda>ctx. fst (map_fn ctx)) inputs),
      concat (map (\<lambda>ctx. case snd (map_fn ctx) of Inl e \<Rightarrow> [] | Inr ws \<Rightarrow> ws) inputs))"

definition shuffle :: "written list \<Rightarrow> reduceContext list" where
  "shuffle ws =
     map (\<lambda>k. \<lparr>reduce_key = k, reduce_values = map snd (filter (\<lambda>w. fst w = k) ws)\<rparr>)
         (remdups (map fst ws))"

fun reduce_stage :: "collaborators \<Rightarrow> reduceContext list \<Rightarrow> world \<Rightarrow> world \<times> written list" where
  "reduce_stage env [] w = (w, [])"
| "reduce_stage env (ctx # rest) w =
     (case reduce env ctx w of
        (w', ws) \<Rightarrow> (case reduce_stage env rest w' of (w'', ws') \<Rightarrow> (w'', ws @ ws')))"

datatype run_result = Aborted js_error | Finished "js_error + summaryReport"

definition run ::
  "collaborators \<Rightarrow> mapContext list \<Rightarrow> jsval \<Rightarrow> world \<Rightarrow> world \<times> run_result" where
  "run env inputs inputTotal w =
     (case getInputData env of
        (l, Inl e) \<Rightarrow> (add_logs w l, Aborted e)
      | (l, Inr searchObj) \<Rightarrow>
          (case map_stage inputs of
             (l', ws) \<Rightarrow>
               (case reduce_stage env (shuffle ws) (add_logs w (l @ l')) of
                  (w', out) \<Rightarrow>
                    (w', Finished (summarize \<lparr>summary_output = out, totalRecords = inputTotal\<rparr>)))))"

section \<open>A configuration and inputs for concrete runs\<close>

text \<open>
  The three script parameters are set, every collaborator succeeds, and an email
  template is mapped to the account \<^verbatim>\<open>A1\<close> only.
\<close>

definition env_ok :: collaborators where
  "env_ok =
     \<lparr>getParameter = map_of
        [(''custscript_tsc_ohs27_eligible_ach_paymen'', ''customsearch_eligible_ach''),
         (''custscript_tsc_ohs27_email_author'', ''7''),
         (''custscript_tsc_ohs27_print_template_id'', ''CUSTTMPL_ACH_VOUCHER'')],
      search_load = (\<lambda>searchId. Inr 3),
      template_search = (\<lambda>accountId. if accountId = Some ''A1'' then Inr [''55''] else Inr []),
      render_pdf = (\<lambda>templateId transactionId. Inr ''%PDF-1.4''),
      mergeEmail = (\<lambda>templateId authorId vendorId. Inr (''ACH payment'', ''Dear vendor'')),
      email_send = (\<lambda>email. None),
      record_load = (\<lambda>transactionId. None),
      record_setValue = (\<lambda>transactionId. None),
      record_save = (\<lambda>transactionId. None)\<rparr>"

text \<open>No email accepted yet, no payment flagged, an empty log.\<close>

definition world0 :: world where
  "world0 = \<lparr>sent = [], email_sent_flag = (\<lambda>transactionId. False), logs = []\<rparr>"

text \<open>The group of the payments 101 and 102 of account \<^verbatim>\<open>A1\<close> and vendor \<^verbatim>\<open>V1\<close>.\<close>

definition group_A1_V1 :: reduceContext where
  "group_A1_V1 =
     \<lparr>reduce_key = ''A1_V1'',
      reduce_values = [Json (JObj [(''orderId'', JStr ''101''), (''accountId'', JStr ''A1_V1'')]),
                       Json (JObj [(''orderId'', JStr ''102''), (''accountId'', JStr ''A1_V1'')])]\<rparr>"

text \<open>A search result with every field, and one without a vendor email.\<close>

definition search_result :: "string \<Rightarrow> string \<Rightarrow> string \<Rightarrow> string \<Rightarrow> mapContext" where
  "search_result internalId account vendor vendorEmail =
     \<lparr>map_key = internalId,
      map_value = Json (JObj
        [(''recordType'', JStr ''vendorpayment''), (''id'', JStr internalId),
         (''values'', JObj
            [(''account'', JObj [(''value'', JStr account), (''text'', JStr ''Operating'')]),
             (''entity'', JObj [(''value'', JStr vendor), (''text'', JStr ''Acme Supply'')]),
             (''trandate'', JStr ''1/15/2025''),
             (''tranid'', JStr (''PAY'' @ internalId)),
             (''email.vendor'', JStr vendorEmail)])])\<rparr>"

text \<open>
  Variations of \<open>env_ok\<close>: the transport refuses every email; saving one payment
  fails; rendering the voucher of one payment fails; merging the email fails.
\<close>

definition env_send_fails :: collaborators where
  "env_send_fails = env_ok\<lparr>email_send := (\<lambda>email. Some (Error ''SSS_INVALID_TO_EMAIL''))\<rparr>"

definition env_save_fails :: "jsval \<Rightarrow> collaborators" where
  "env_save_fails bad =
     env_ok\<lparr>record_save :=
       (\<lambda>transactionId. if transactionId = bad then Some (Error ''RCRD_HAS_BEEN_CHANGED'') else None)\<rparr>"

definition env_render_fails :: "jsval \<Rightarrow> collaborators" where
  "env_render_fails bad =
     env_ok\<lparr>render_pdf :=
       (\<lambda>templateId transactionId.
          if transactionId = bad then Inl (Error ''RENDER_FAILED'') else Inr ''%PDF-1.4'')\<rparr>"

definition env_merge_fails :: "jsval \<Rightarrow> collaborators" where
  "env_merge_fails bad =
     (env_render_fails bad)\<lparr>mergeEmail :=
       (\<lambda>templateId authorId vendorId. Inl (Error ''INVALID_TEMPLATE''))\<rparr>"

text \<open>The email \<^verbatim>\<open>reduce\<close> composes for the group \<open>group_A1_V1\<close> under these configurations.\<close>

definition voucher :: "string \<Rightarrow> pdf_file" where
  "voucher transactionId =
     \<lparr>file_name = ''ACH_Payment_'' @ transactionId @ ''.pdf'', file_contents = ''%PDF-1.4''\<rparr>"

definition email_A1_V1 :: "pdf_file list \<Rightarrow> emailObj" where
  "email_A1_V1 pdfFiles =
     \<lparr>author = Some ''7'', recipients = Some ''V1'', subject = ''ACH payment'',
      body = ''Dear vendor'', attachments = pdfFiles\<rparr>"

text \<open>
  The scenario of the specification: a complete record for account \<^verbatim>\<open>A1\<close> and vendor
  \<^verbatim>\<open>V1\<close>, a record without a vendor email, a complete record for \<^verbatim>\<open>A1\<close> and \<^verbatim>\<open>V2\<close>. And
  two records that both miss the vendor email.
\<close>

definition scenario_inputs :: "mapContext list" where
  "scenario_inputs =
     [search_result ''101'' ''A1'' ''V1'' ''ap@v1.example'',
      search_result ''102'' ''A1'' ''V1'' [],
      search_result ''103'' ''A1'' ''V2'' ''ap@v2.example'']"

definition two_skipped_inputs :: "mapContext list" where
  "two_skipped_inputs =
     [search_result ''201'' ''A1'' ''V1'' [],
      search_result ''202'' ''A1'' ''V2'' []]"

section \<open>Notions the statements below use\<close>

text \<open>
  The three script parameters \<^verbatim>\<open>getInputData\<close> requires, by the name its error message
  gives them, in the order of its checks.
\<close>

definition required_params :: "(string \<times> string) list" where
  "required_params =
     [(''Eligible ACH Payments Search'', SCRIPT_PARAM_ELIGIBLE_ACH_PAYMENTS_SEARCH),
      (''Print Template ID'', SCRIPT_PARAM_PRINT_TEMPLATE_ID),
      (''Email Author'', SCRIPT_PARAM_EMAIL_AUTHOR)]"

text \<open>A JSON text of an object, and the value a JSON text stands for.\<close>

fun is_object :: "jsval \<Rightarrow> bool" where
  "is_object (JObj kvs) = True"
| "is_object v = False"

fun json_value :: "json_text \<Rightarrow> jsval" where
  "json_value (Json v) = v"
| "json_value Malformed = JUndefined"

definition object_text :: "json_text \<Rightarrow> bool" where
  "object_text t = (t \<noteq> Malformed \<and> is_object (json_value t))"

text \<open>The number of pairs written under a key.\<close>

definition written_under :: "string \<Rightarrow> written list \<Rightarrow> nat" where
  "written_under k ws = length (filter (\<lambda>x. fst x = k) ws)"

text \<open>
  The three counts of a summary report (\<^verbatim>\<open>successfullyProcessed\<close>, the skipped count, the
  error count), when there is a report.
\<close>

definition report_counts :: "js_error + summaryReport \<Rightarrow> (nat \<times> nat \<times> nat) option" where
  "report_counts r =
     (case r of
        Inl e \<Rightarrow> None
      | Inr rep \<Rightarrow>
          Some (successfullyProcessed rep, skippedRecords_count rep, errorRecords_count rep))"

text \<open>
  The array \<^verbatim>\<open>reduce\<close> writes back for a reserved key: the values written under the key,
  parsed, as \<^verbatim>\<open>JSON.stringify\<close> renders the array of them.
\<close>

definition bucket_array :: "written list \<Rightarrow> string \<Rightarrow> jsval" where
  "bucket_array ws k = json_norm (JArr (map json_value (map snd (filter (\<lambda>x. fst x = k) ws))))"

section \<open>Verified properties\<close>

subsection \<open>Auxiliary facts\<close>

lemma bindE_Inr [simp]: "bindE (Inr x) f = f x"
  by (simp add: bindE_def)

lemma bindE_Inl [simp]: "bindE (Inl e) f = Inl e"
  by (simp add: bindE_def)

lemma get_prop_total:
  assumes "v \<noteq> JUndefined" "v \<noteq> JNull"
  shows "\<exists>f. get_prop v k = Inr f"
  using assms by (cases v) simp_all

lemma is_missing_1:
  "get_prop values k = Inr f \<Longrightarrow> is_missing values [k] = (\<not> truthy f)"
  by (simp add: is_missing_def)

lemma no_value_eq:
  assumes "values \<noteq> JUndefined" "values \<noteq> JNull"
  shows "no_value values k = Inr (is_missing values [k, ''value''])"
proof -
  obtain f where f: "get_prop values k = Inr f"
    using get_prop_total [OF assms] by blast
  show ?thesis
    using f by (cases f) (simp_all add: no_value_def is_missing_def)
qed

lemma missingFields_of_eq:
  assumes "values \<noteq> JUndefined" "values \<noteq> JNull"
  shows "missingFields_of values =
         Inr (map fst (filter (\<lambda>f. is_missing values (snd f)) required_fields))"
proof -
  obtain d where d: "get_prop values ''trandate'' = Inr d"
    using get_prop_total [OF assms] by blast
  obtain t where t: "get_prop values ''tranid'' = Inr t"
    using get_prop_total [OF assms] by blast
  obtain m where m: "get_prop values ''email.vendor'' = Inr m"
    using get_prop_total [OF assms] by blast
  show ?thesis
    using d t m
    by (simp add: missingFields_of_def no_value_eq [OF assms] required_fields_def
        push_if_def is_missing_1)
qed

lemma sub_or_NA_total:
  assumes "values \<noteq> JUndefined" "values \<noteq> JNull"
  shows "\<exists>v. sub_or_NA values k sub = Inr v"
proof -
  obtain f where f: "get_prop values k = Inr f"
    using get_prop_total [OF assms] by blast
  show ?thesis
    using f by (cases f) (simp_all add: sub_or_NA_def)
qed

subsection \<open>The map stage\<close>

text \<open>
  Claim C1. A raw record whose \<^verbatim>\<open>values\<close> can be read and that misses at least one of
  the five required fields (account, vendor/entity, transaction date, transaction id,
  vendor email) makes \<^verbatim>\<open>map\<close> write exactly one pair, under the key \<^verbatim>\<open>SKIPPED_RECORDS\<close>:
  an entry for that record whose \<^verbatim>\<open>errorNote\<close> lists every missing field, in the order
  of the checks, and not only the first. Nothing is written under a group key.
\<close>

theorem map_skips_missing_fields:
  assumes "map_value ctx = Json searchResult"
    and "get_prop searchResult ''values'' = Inr values"
    and "values \<noteq> JUndefined" and "values \<noteq> JNull"
    and "\<exists>f \<in> set required_fields. is_missing values (snd f)"
  shows "\<exists>entry. snd (map_fn ctx) = Inr [(''SKIPPED_RECORDS'', Json entry)]
           \<and> get_prop entry ''recordId'' = Inr (JStr (map_key ctx))
           \<and> get_prop entry ''errorNote'' =
               Inr (JStr (''Missing required fields: '' @
                 join '', '' (map fst (filter (\<lambda>f. is_missing values (snd f)) required_fields))))
           \<and> get_prop entry ''missingFields'' =
               Inr (JArr (map JStr (map fst (filter (\<lambda>f. is_missing values (snd f)) required_fields))))"
proof -
  let ?missing = "map fst (filter (\<lambda>f. is_missing values (snd f)) required_fields)"
  have m: "missingFields_of values = Inr ?missing"
    using assms(3,4) by (rule missingFields_of_eq)
  have ne: "?missing \<noteq> []"
    using assms(5) by (auto simp: filter_empty_conv)
  obtain tranid where t: "get_prop values ''tranid'' = Inr tranid"
    using get_prop_total [OF assms(3,4)] by blast
  obtain entity where e: "sub_or_NA values ''entity'' ''text'' = Inr entity"
    using sub_or_NA_total [OF assms(3,4)] by blast
  obtain accountId where a: "sub_or_NA values ''account'' ''value'' = Inr accountId"
    using sub_or_NA_total [OF assms(3,4)] by blast
  obtain entityId where i: "sub_or_NA values ''entity'' ''value'' = Inr entityId"
    using sub_or_NA_total [OF assms(3,4)] by blast
  have "snd (map_fn ctx) = Inr [(''SKIPPED_RECORDS'', JSON_stringify (JObj
         [(''recordId'', JStr (map_key ctx)),
          (''tranid'', js_or tranid (JStr ''N/A'')),
          (''entity'', entity),
          (''accountId'', accountId),
          (''entityId'', entityId),
          (''errorNote'', JStr (''Missing required fields: '' @ join '', '' ?missing)),
          (''missingFields'', JArr (map JStr ?missing))]))]"
    using assms(1,2) m ne t e a i
    by (simp add: map_fn_def map_try_def skipped_entry_def Let_def)
  then show ?thesis
    by (simp add: JSON_stringify_def o_def)
qed

theorem map_skips_missing_fields_witness:
  "\<exists>entry.
     snd (map_fn \<lparr>map_key = ''101'', map_value = Json (JObj [(''id'', JStr ''101''), (''values'',
       JObj [(''account'', JObj [(''value'', JStr ''A1''), (''text'', JStr ''Checking'')]),
             (''entity'', JObj [(''value'', JStr []), (''text'', JStr ''Acme'')]),
             (''tranid'', JStr ''T-1'')])])\<rparr>)
       = Inr [(''SKIPPED_RECORDS'', Json entry)]
     \<and> get_prop entry ''recordId'' = Inr (JStr ''101'')
     \<and> get_prop entry ''errorNote'' =
         Inr (JStr ''Missing required fields: entity, transaction date, vendor email'')
     \<and> get_prop entry ''missingFields'' =
         Inr (JArr [JStr ''entity'', JStr ''transaction date'', JStr ''vendor email''])"
  using map_skips_missing_fields
    [of "\<lparr>map_key = ''101'', map_value = Json (JObj [(''id'', JStr ''101''), (''values'',
       JObj [(''account'', JObj [(''value'', JStr ''A1''), (''text'', JStr ''Checking'')]),
             (''entity'', JObj [(''value'', JStr []), (''text'', JStr ''Acme'')]),
             (''tranid'', JStr ''T-1'')])])\<rparr>"
        "JObj [(''id'', JStr ''101''), (''values'',
       JObj [(''account'', JObj [(''value'', JStr ''A1''), (''text'', JStr ''Checking'')]),
             (''entity'', JObj [(''value'', JStr []), (''text'', JStr ''Acme'')]),
             (''tranid'', JStr ''T-1'')])]"
        "JObj [(''account'', JObj [(''value'', JStr ''A1''), (''text'', JStr ''Checking'')]),
             (''entity'', JObj [(''value'', JStr []), (''text'', JStr ''Acme'')]),
             (''tranid'', JStr ''T-1'')]"]
  by (simp add: required_fields_def is_missing_def)

text \<open>
  Claim C5. An exception raised while a record is normalized should be caught in \<^verbatim>\<open>map\<close>
  and turned into an entry under \<^verbatim>\<open>ERROR_RECORDS\<close>. On a value that is not JSON, and on a
  search result without a \<^verbatim>\<open>values\<close> object, the catch block itself throws: it reads
  \<^verbatim>\<open>values\<close>, which is not in its scope. Nothing is written and the ReferenceError leaves
  \<^verbatim>\<open>map\<close>.
\<close>

theorem map_exception_leaves_map:
  "map_fn \<lparr>map_key = ''101'', map_value = Malformed\<rparr>
     = ([(DEBUG, ''Map Input'', Opaque)], Inl (ReferenceError ''values is not defined''))
   \<and> map_fn \<lparr>map_key = ''102'', map_value = Json (JObj [(''id'', JStr ''102'')])\<rparr>
     = ([(DEBUG, ''Map Input'', Opaque)], Inl (ReferenceError ''values is not defined''))"
  by (simp add: map_fn_def map_try_def missingFields_of_def no_value_def map_catch_def
      map_catch_scope_def module_scope_def guarded_read_def lookup_var_def Let_def)

subsection \<open>The reduce stage\<close>

lemma add_logs_simps [simp]:
  "sent (add_logs w l) = sent w"
  "email_sent_flag (add_logs w l) = email_sent_flag w"
  "logs (add_logs w l) = logs w @ l"
  by (simp_all add: add_logs_def)

lemma add_logs_add_logs [simp]: "add_logs (add_logs w l) l' = add_logs w (l @ l')"
  by (simp add: add_logs_def)

lemma mark_email_sent_sent [simp]: "sent (fst (mark_email_sent env ids w)) = sent w"
  by (induction ids arbitrary: w) (auto split: option.splits)

lemma mark_email_sent_logs [simp]: "logs (fst (mark_email_sent env ids w)) = logs w"
  by (induction ids arbitrary: w) (auto split: option.splits)

lemma mark_email_sent_all:
  "\<forall>t \<in> set ids. persist_error env t = None \<Longrightarrow>
   mark_email_sent env ids w =
     (w\<lparr>email_sent_flag := (\<lambda>t. t \<in> set ids \<or> email_sent_flag w t)\<rparr>, None)"
proof (induction ids arbitrary: w)
  case Nil
  then show ?case by simp
next
  case (Cons t ids)
  have "(\<lambda>x. x \<in> set ids \<or> ((email_sent_flag w)(t := True)) x)
        = (\<lambda>x. x \<in> set (t # ids) \<or> email_sent_flag w x)"
    by auto
  with Cons show ?case by simp
qed

lemma mark_email_sent_stops:
  assumes "\<forall>t \<in> set pre. persist_error env t = None"
    and "persist_error env bad = Some e"
  shows "mark_email_sent env (pre @ bad # post) w =
     (w\<lparr>email_sent_flag := (\<lambda>t. t \<in> set pre \<or> email_sent_flag w t)\<rparr>, Some e)"
  using assms
proof (induction pre arbitrary: w)
  case Nil
  then show ?case by simp
next
  case (Cons t pre)
  have "(\<lambda>x. x \<in> set pre \<or> ((email_sent_flag w)(t := True)) x)
        = (\<lambda>x. x \<in> set (t # pre) \<or> email_sent_flag w x)"
    by auto
  with Cons show ?case by simp
qed

lemma mark_email_sent_only_members:
  "email_sent_flag (fst (mark_email_sent env ids w)) t \<Longrightarrow> \<not> email_sent_flag w t \<Longrightarrow>
   t \<in> set ids \<and> persist_error env t = None"
proof (induction ids arbitrary: w)
  case Nil
  then show ?case by simp
next
  case (Cons a ids)
  show ?case
  proof (cases "persist_error env a")
    case None
    show ?thesis
    proof (cases "t = a")
      case True
      with None show ?thesis by simp
    next
      case False
      let ?w = "w\<lparr>email_sent_flag := (email_sent_flag w)(a := True)\<rparr>"
      have "email_sent_flag (fst (mark_email_sent env ids ?w)) t"
        using Cons.prems(1) None by simp
      moreover have "\<not> email_sent_flag ?w t"
        using Cons.prems(2) False by simp
      ultimately have "t \<in> set ids \<and> persist_error env t = None"
        by (rule Cons.IH)
      then show ?thesis by simp
    qed
  next
    case (Some e)
    with Cons.prems show ?thesis by simp
  qed
qed

lemma send_and_mark_fails:
  "email_send env email = Some e \<Longrightarrow>
   send_and_mark env email ids w = add_logs w [(ERROR, ''sendEmail'', Caught e)]"
  by (simp add: send_and_mark_def)

lemma send_and_mark_sent:
  "sent (send_and_mark env email ids w)
     = (if email_send env email = None then sent w @ [email] else sent w)"
proof (cases "email_send env email")
  case None
  obtain w' r where m: "mark_email_sent env ids (w\<lparr>sent := sent w @ [email]\<rparr>) = (w', r)"
    by (cases "mark_email_sent env ids (w\<lparr>sent := sent w @ [email]\<rparr>)")
  have "sent w' = sent w @ [email]"
    using mark_email_sent_sent [of env ids "w\<lparr>sent := sent w @ [email]\<rparr>"] m by simp
  with None m show ?thesis
    by (cases r) (simp_all add: send_and_mark_def)
next
  case (Some e)
  then show ?thesis by (simp add: send_and_mark_fails)
qed

lemma send_and_mark_flag:
  "email_sent_flag (send_and_mark env email ids w) t \<Longrightarrow> \<not> email_sent_flag w t \<Longrightarrow>
   email_send env email = None \<and> t \<in> set ids \<and> persist_error env t = None"
proof (cases "email_send env email")
  case None
  assume a: "email_sent_flag (send_and_mark env email ids w) t" "\<not> email_sent_flag w t"
  obtain w' r where m: "mark_email_sent env ids (w\<lparr>sent := sent w @ [email]\<rparr>) = (w', r)"
    by (cases "mark_email_sent env ids (w\<lparr>sent := sent w @ [email]\<rparr>)")
  have "email_sent_flag w' t"
    using a None m by (cases r) (simp_all add: send_and_mark_def)
  then show ?thesis
    using mark_email_sent_only_members [of env ids "w\<lparr>sent := sent w @ [email]\<rparr>" t] m a(2) None
    by simp
next
  case (Some e)
  assume "email_sent_flag (send_and_mark env email ids w) t" "\<not> email_sent_flag w t"
  with Some show ?thesis by (simp add: send_and_mark_fails)
qed

lemma notify_group_sends:
  assumes "searchRelatedEmailTemplate env (key_part (reduce_key ctx) 0) = (l, Inr templateId)"
    and "transactionsId_of (reduce_values ctx) = Inr ids"
    and "generateIndividualPaymentVoucher env ids = (l', Inr pdfFiles)"
    and "mergeEmail env templateId (getParameter env SCRIPT_PARAM_EMAIL_AUTHOR)
           (key_part (reduce_key ctx) 1) = Inr (subj, bdy)"
  shows "notify_group env ctx w =
     (send_and_mark env
        \<lparr>author = getParameter env SCRIPT_PARAM_EMAIL_AUTHOR,
         recipients = key_part (reduce_key ctx) 1,
         subject = subj, body = bdy, attachments = pdfFiles\<rparr>
        ids
        (add_logs w ([(DEBUG, reduce_key ctx, Opaque)] @ l @
           [(DEBUG, ''Email Template ID'', Opaque), (DEBUG, ''Email Author ID'', Opaque),
            (DEBUG, ''Transactions ID'', Opaque)] @ l' @
           [(DEBUG, ''Generated PDF Files'', Opaque), (DEBUG, ''Email Object'', Opaque)])),
      None)"
  using assms by (simp add: notify_group_def Let_def)

lemma notify_group_cases:
  "(\<exists>l. fst (notify_group env ctx w) = add_logs w l) \<or>
   (\<exists>l email ids. transactionsId_of (reduce_values ctx) = Inr ids
      \<and> recipients email = key_part (reduce_key ctx) 1
      \<and> notify_group env ctx w = (send_and_mark env email ids (add_logs w l), None))"
proof -
  obtain l r where t: "searchRelatedEmailTemplate env (key_part (reduce_key ctx) 0) = (l, r)"
    by (cases "searchRelatedEmailTemplate env (key_part (reduce_key ctx) 0)")
  show ?thesis
  proof (cases r)
    case (Inl e)
    with t have "fst (notify_group env ctx w) = add_logs w ((DEBUG, reduce_key ctx, Opaque) # l)"
      by (simp add: notify_group_def Let_def)
    then show ?thesis by blast
  next
    case (Inr templateId)
    note tpl = t [unfolded Inr]
    show ?thesis
    proof (cases "transactionsId_of (reduce_values ctx)")
      case (Inl e)
      with tpl have "\<exists>l'. fst (notify_group env ctx w) = add_logs w l'"
        by (simp add: notify_group_def Let_def) (rule exI, rule refl)
      then show ?thesis by blast
    next
      case ids: (Inr ids)
      obtain l' r' where g: "generateIndividualPaymentVoucher env ids = (l', r')"
        by (cases "generateIndividualPaymentVoucher env ids")
      show ?thesis
      proof (cases r')
        case (Inl e)
        with tpl ids g have "\<exists>l'. fst (notify_group env ctx w) = add_logs w l'"
          by (simp add: notify_group_def Let_def) (rule exI, rule refl)
        then show ?thesis by blast
      next
        case files: (Inr pdfFiles)
        note gen = g [unfolded files]
        show ?thesis
        proof (cases "mergeEmail env templateId (getParameter env SCRIPT_PARAM_EMAIL_AUTHOR)
                        (key_part (reduce_key ctx) 1)")
          case (Inl e)
          with tpl ids gen have "\<exists>l'. fst (notify_group env ctx w) = add_logs w l'"
            by (simp add: notify_group_def Let_def) (rule exI, rule refl)
          then show ?thesis by blast
        next
          case (Inr sb)
          obtain subj bdy where sb: "sb = (subj, bdy)" by (cases sb)
          note m = Inr [unfolded sb]
          let ?email = "\<lparr>author = getParameter env SCRIPT_PARAM_EMAIL_AUTHOR,
                          recipients = key_part (reduce_key ctx) 1,
                          subject = subj, body = bdy, attachments = pdfFiles\<rparr>"
          have "recipients ?email = key_part (reduce_key ctx) 1"
            by simp
          moreover note notify_group_sends [OF tpl ids gen m, of w]
          ultimately
          have "\<exists>l email. recipients email = key_part (reduce_key ctx) 1
                  \<and> notify_group env ctx w = (send_and_mark env email ids (add_logs w l), None)"
            by blast
          with ids show ?thesis by blast
        qed
      qed
    qed
  qed
qed

lemma reduce_cases:
  "(\<exists>l. fst (reduce env ctx w) = add_logs w l) \<or>
   (\<exists>l email ids. \<not> reserved_key (reduce_key ctx)
      \<and> transactionsId_of (reduce_values ctx) = Inr ids
      \<and> recipients email = key_part (reduce_key ctx) 1
      \<and> fst (reduce env ctx w) = send_and_mark env email ids (add_logs w l))"
proof (cases "reserved_key (reduce_key ctx)")
  case True
  have "fst (reduce env ctx w) = add_logs w [] \<or>
        (\<exists>e. fst (reduce env ctx w) = add_logs w [(ERROR, ''reduce'', Caught e)])"
    using True by (auto simp: reduce_def add_logs_def split: sum.splits)
  then show ?thesis by blast
next
  case False
  from notify_group_cases [of env ctx w] show ?thesis
  proof (elim disjE exE conjE)
    fix l assume "fst (notify_group env ctx w) = add_logs w l"
    then have "\<exists>l'. fst (reduce env ctx w) = add_logs w l'"
      using False by (cases "notify_group env ctx w") (auto simp: reduce_def split: option.splits)
    then show ?thesis by blast
  next
    fix l email ids
    assume "transactionsId_of (reduce_values ctx) = Inr ids"
      "recipients email = key_part (reduce_key ctx) 1"
      "notify_group env ctx w = (send_and_mark env email ids (add_logs w l), None)"
    with False show ?thesis by (auto simp: reduce_def)
  qed
qed

lemma reduce_first_revision_eq:
  "\<not> reserved_key (reduce_key ctx) \<Longrightarrow> reduce_first_revision env ctx w = fst (reduce env ctx w)"
  by (simp add: reduce_def reduce_first_revision_def split: prod.splits option.splits)

lemma reduce_flag_after_send:
  assumes "email_sent_flag (fst (reduce env ctx w)) t" and "\<not> email_sent_flag w t"
  shows "\<exists>email ids. sent (fst (reduce env ctx w)) = sent w @ [email]
           \<and> email_send env email = None
           \<and> recipients email = key_part (reduce_key ctx) 1
           \<and> transactionsId_of (reduce_values ctx) = Inr ids \<and> t \<in> set ids"
  using reduce_cases [of env ctx w]
proof (elim disjE exE conjE)
  fix l assume "fst (reduce env ctx w) = add_logs w l"
  with assms show ?thesis by simp
next
  fix l email ids
  assume h: "transactionsId_of (reduce_values ctx) = Inr ids"
    "recipients email = key_part (reduce_key ctx) 1"
    "fst (reduce env ctx w) = send_and_mark env email ids (add_logs w l)"
  have "email_send env email = None \<and> t \<in> set ids \<and> persist_error env t = None"
    using send_and_mark_flag [of env email ids "add_logs w l" t] assms h(3) by simp
  then show ?thesis
    using h send_and_mark_sent [of env email ids "add_logs w l"] by auto
qed

lemma reduce_sent_unchanged_flags:
  assumes "sent (fst (reduce env ctx w)) = sent w"
  shows "email_sent_flag (fst (reduce env ctx w)) = email_sent_flag w"
  using reduce_cases [of env ctx w]
proof (elim disjE exE conjE)
  fix l assume "fst (reduce env ctx w) = add_logs w l"
  then show ?thesis by simp
next
  fix l email ids
  assume h: "fst (reduce env ctx w) = send_and_mark env email ids (add_logs w l)"
  have "email_send env email \<noteq> None"
    using assms h send_and_mark_sent [of env email ids "add_logs w l"] by (auto split: if_splits)
  then show ?thesis
    using h by (auto simp: send_and_mark_fails)
qed

lemma reduce_stage_Cons_no_write:
  "snd (reduce env ctx w) = [] \<Longrightarrow>
   reduce_stage env (ctx # rest) w = reduce_stage env rest (fst (reduce env ctx w))"
  by (cases "reduce env ctx w") (simp split: prod.splits)

text \<open>
  Claim C3. For a group whose account has no email template mapping, the template
  lookup throws, \<^verbatim>\<open>reduce\<close> logs the error (once in \<^verbatim>\<open>searchRelatedEmailTemplate\<close>, once in
  its own \<^verbatim>\<open>catch\<close>) and returns: no email is sent, no payment record is changed, nothing
  is written, and the reduce stage goes on with the remaining groups from that state.
\<close>

theorem reduce_without_template:
  assumes "\<not> reserved_key (reduce_key ctx)"
    and "template_search env (key_part (reduce_key ctx) 0) = Inr []"
  shows "reduce env ctx w =
           (add_logs w
              [(DEBUG, reduce_key ctx, Opaque),
               (ERROR, ''searchRelatedEmailTemplate'',
                Caught (Error (''No email template found for account ID: ''
                               @ or_undefined (key_part (reduce_key ctx) 0)))),
               (ERROR, ''reduce'',
                Caught (Error (''No email template found for account ID: ''
                               @ or_undefined (key_part (reduce_key ctx) 0))))], [])
         \<and> sent (fst (reduce env ctx w)) = sent w
         \<and> email_sent_flag (fst (reduce env ctx w)) = email_sent_flag w
         \<and> reduce_stage env (ctx # rest) w = reduce_stage env rest (fst (reduce env ctx w))"
proof -
  have r: "reduce env ctx w =
           (add_logs w
              [(DEBUG, reduce_key ctx, Opaque),
               (ERROR, ''searchRelatedEmailTemplate'',
                Caught (Error (''No email template found for account ID: ''
                               @ or_undefined (key_part (reduce_key ctx) 0)))),
               (ERROR, ''reduce'',
                Caught (Error (''No email template found for account ID: ''
                               @ or_undefined (key_part (reduce_key ctx) 0))))], [])"
    using assms
    by (simp add: reduce_def notify_group_def searchRelatedEmailTemplate_def Let_def)
  then have "snd (reduce env ctx w) = []" by simp
  then have "reduce_stage env (ctx # rest) w = reduce_stage env rest (fst (reduce env ctx w))"
    by (rule reduce_stage_Cons_no_write)
  with r show ?thesis by simp
qed

theorem reduce_without_template_witness:
  "sent (fst (reduce env_ok \<lparr>reduce_key = ''A2_V9'',
            reduce_values = [Json (JObj [(''orderId'', JStr ''201'')])]\<rparr> world0)) = []
   \<and> email_sent_flag (fst (reduce env_ok \<lparr>reduce_key = ''A2_V9'',
            reduce_values = [Json (JObj [(''orderId'', JStr ''201'')])]\<rparr> world0))
       = (\<lambda>transactionId. False)
   \<and> logs (fst (reduce env_ok \<lparr>reduce_key = ''A2_V9'',
            reduce_values = [Json (JObj [(''orderId'', JStr ''201'')])]\<rparr> world0))
       = [(DEBUG, ''A2_V9'', Opaque),
          (ERROR, ''searchRelatedEmailTemplate'',
           Caught (Error ''No email template found for account ID: A2'')),
          (ERROR, ''reduce'', Caught (Error ''No email template found for account ID: A2''))]
   \<and> reduce_stage env_ok [\<lparr>reduce_key = ''A2_V9'',
            reduce_values = [Json (JObj [(''orderId'', JStr ''201'')])]\<rparr>, group_A1_V1] world0
       = reduce_stage env_ok [group_A1_V1]
           (fst (reduce env_ok \<lparr>reduce_key = ''A2_V9'',
              reduce_values = [Json (JObj [(''orderId'', JStr ''201'')])]\<rparr> world0))"
  using reduce_without_template
    [of "\<lparr>reduce_key = ''A2_V9'', reduce_values = [Json (JObj [(''orderId'', JStr ''201'')])]\<rparr>"
        env_ok world0 "[group_A1_V1]"]
  by (simp add: reserved_key_def key_part_def array_at_def env_ok_def world0_def or_undefined_def)

text \<open>
  Claim C2, as amended. In the block of lines 251 to 268: when the send throws, no email
  is recorded as sent and no flag changes; when the send returns and no load, setValue
  or save of the group throws, every payment of the group has its flag set. For
  \<^verbatim>\<open>reduce\<close> as a whole: a run of it that adds no sent email leaves every flag as it was,
  and a flag that it sets belongs to a payment of the group, after an email to the
  vendor of that group was accepted by the transport. On the keys that are not reserved
  the \<^verbatim>\<open>reduce\<close> of the earlier revision does the same.
\<close>

theorem flag_follows_send:
  "(email_send env email = Some e \<longrightarrow>
      sent (send_and_mark env email ids w) = sent w
      \<and> email_sent_flag (send_and_mark env email ids w) = email_sent_flag w)
   \<and> (email_send env email = None \<and> (\<forall>t \<in> set ids. persist_error env t = None) \<longrightarrow>
      sent (send_and_mark env email ids w) = sent w @ [email]
      \<and> (\<forall>t \<in> set ids. email_sent_flag (send_and_mark env email ids w) t))
   \<and> (sent (fst (reduce env ctx w)) = sent w \<longrightarrow>
      email_sent_flag (fst (reduce env ctx w)) = email_sent_flag w)
   \<and> (sent (fst (reduce env ctx w)) \<noteq> sent w
        \<and> transactionsId_of (reduce_values ctx) = Inr ids
        \<and> (\<forall>t \<in> set ids. persist_error env t = None) \<longrightarrow>
      (\<forall>t \<in> set ids. email_sent_flag (fst (reduce env ctx w)) t))
   \<and> (email_sent_flag (fst (reduce env ctx w)) t \<and> \<not> email_sent_flag w t \<longrightarrow>
      (\<exists>email ids. sent (fst (reduce env ctx w)) = sent w @ [email]
         \<and> email_send env email = None
         \<and> recipients email = key_part (reduce_key ctx) 1
         \<and> transactionsId_of (reduce_values ctx) = Inr ids \<and> t \<in> set ids))
   \<and> (\<not> reserved_key (reduce_key ctx) \<longrightarrow>
      reduce_first_revision env ctx w = fst (reduce env ctx w))"
proof (intro conjI impI)
  assume "email_send env email = Some e"
  then show "sent (send_and_mark env email ids w) = sent w"
    and "email_sent_flag (send_and_mark env email ids w) = email_sent_flag w"
    by (simp_all add: send_and_mark_fails)
next
  assume a: "email_send env email = None \<and> (\<forall>t \<in> set ids. persist_error env t = None)"
  then show "sent (send_and_mark env email ids w) = sent w @ [email]"
    by (simp add: send_and_mark_sent)
  from a show "\<forall>t \<in> set ids. email_sent_flag (send_and_mark env email ids w) t"
    by (simp add: send_and_mark_def mark_email_sent_all)
next
  assume "sent (fst (reduce env ctx w)) = sent w"
  then show "email_sent_flag (fst (reduce env ctx w)) = email_sent_flag w"
    by (rule reduce_sent_unchanged_flags)
next
  assume a: "sent (fst (reduce env ctx w)) \<noteq> sent w
        \<and> transactionsId_of (reduce_values ctx) = Inr ids
        \<and> (\<forall>t \<in> set ids. persist_error env t = None)"
  from reduce_cases [of env ctx w]
  show "\<forall>t \<in> set ids. email_sent_flag (fst (reduce env ctx w)) t"
  proof (elim disjE exE conjE)
    fix l assume "fst (reduce env ctx w) = add_logs w l"
    with a show ?thesis by simp
  next
    fix l email' ids'
    assume h: "transactionsId_of (reduce_values ctx) = Inr ids'"
      "fst (reduce env ctx w) = send_and_mark env email' ids' (add_logs w l)"
    from a h(1) have i: "ids' = ids" by simp
    have "email_send env email' = None"
      using a h(2) send_and_mark_sent [of env email' ids' "add_logs w l"]
      by (auto split: if_splits)
    with a show ?thesis
      unfolding h(2) i by (simp add: send_and_mark_def mark_email_sent_all)
  qed
next
  assume "email_sent_flag (fst (reduce env ctx w)) t \<and> \<not> email_sent_flag w t"
  then show "\<exists>email ids. sent (fst (reduce env ctx w)) = sent w @ [email]
         \<and> email_send env email = None
         \<and> recipients email = key_part (reduce_key ctx) 1
         \<and> transactionsId_of (reduce_values ctx) = Inr ids \<and> t \<in> set ids"
    using reduce_flag_after_send by blast
next
  assume "\<not> reserved_key (reduce_key ctx)"
  then show "reduce_first_revision env ctx w = fst (reduce env ctx w)"
    by (rule reduce_first_revision_eq)
qed

lemma transactionsId_group_A1_V1:
  "transactionsId_of (reduce_values group_A1_V1) = Inr [JStr ''101'', JStr ''102'']"
  by (simp add: transactionsId_of_def group_A1_V1_def)

lemma key_part_A1_V1:
  "key_part (reduce_key group_A1_V1) 0 = Some ''A1''"
  "key_part (reduce_key group_A1_V1) 1 = Some ''V1''"
  "key_part (reduce_key group_A1_V1) (Suc 0) = Some ''V1''"
  by (simp_all add: group_A1_V1_def key_part_def array_at_def)

lemma not_reserved_A1_V1: "\<not> reserved_key (reduce_key group_A1_V1)"
  by (simp add: group_A1_V1_def reserved_key_def)

lemmas env_defs = env_ok_def env_send_fails_def env_save_fails_def env_render_fails_def
  env_merge_fails_def

lemmas reduce_eval_defs = reduce_def notify_group_def searchRelatedEmailTemplate_def
  transactionsId_of_def send_and_mark_def persist_error_def key_part_def array_at_def
  reserved_key_def group_A1_V1_def world0_def add_logs_def Let_def
  SCRIPT_PARAM_EMAIL_AUTHOR_def SCRIPT_PARAM_PRINT_TEMPLATE_ID_def voucher_def email_A1_V1_def

lemma reduce_env_ok:
  "reduce env_ok group_A1_V1 world0 =
     (\<lparr>sent = [email_A1_V1 [voucher ''101'', voucher ''102'']],
       email_sent_flag = (\<lambda>t. t = JStr ''101'' \<or> t = JStr ''102''),
       logs = [(DEBUG, ''A1_V1'', Opaque), (DEBUG, ''Email Template ID'', Opaque),
               (DEBUG, ''Email Author ID'', Opaque), (DEBUG, ''Transactions ID'', Opaque),
               (DEBUG, ''Generated PDF Files'', Opaque), (DEBUG, ''Email Object'', Opaque)]\<rparr>, [])"
  by (simp add: reduce_eval_defs env_defs fun_eq_iff)

lemma world0_simps:
  "sent world0 = []" "email_sent_flag world0 = (\<lambda>t. False)" "logs world0 = []"
  by (simp_all add: world0_def)

lemma reduce_env_send_fails:
  "reduce env_send_fails group_A1_V1 world0 =
     (\<lparr>sent = [], email_sent_flag = (\<lambda>t. False),
       logs = [(DEBUG, ''A1_V1'', Opaque), (DEBUG, ''Email Template ID'', Opaque),
               (DEBUG, ''Email Author ID'', Opaque), (DEBUG, ''Transactions ID'', Opaque),
               (DEBUG, ''Generated PDF Files'', Opaque), (DEBUG, ''Email Object'', Opaque),
               (ERROR, ''sendEmail'', Caught (Error ''SSS_INVALID_TO_EMAIL''))]\<rparr>, [])"
  by (simp add: reduce_eval_defs env_defs fun_eq_iff)

lemma reduce_env_save_fails_102:
  "reduce (env_save_fails (JStr ''102'')) group_A1_V1 world0 =
     (\<lparr>sent = [email_A1_V1 [voucher ''101'', voucher ''102'']],
       email_sent_flag = (\<lambda>t. t = JStr ''101''),
       logs = [(DEBUG, ''A1_V1'', Opaque), (DEBUG, ''Email Template ID'', Opaque),
               (DEBUG, ''Email Author ID'', Opaque), (DEBUG, ''Transactions ID'', Opaque),
               (DEBUG, ''Generated PDF Files'', Opaque), (DEBUG, ''Email Object'', Opaque),
               (ERROR, ''sendEmail'', Caught (Error ''RCRD_HAS_BEEN_CHANGED''))]\<rparr>, [])"
  by (simp add: reduce_eval_defs env_defs fun_eq_iff)

lemma reduce_env_save_fails_101:
  "reduce (env_save_fails (JStr ''101'')) group_A1_V1 world0 =
     (\<lparr>sent = [email_A1_V1 [voucher ''101'', voucher ''102'']],
       email_sent_flag = (\<lambda>t. False),
       logs = [(DEBUG, ''A1_V1'', Opaque), (DEBUG, ''Email Template ID'', Opaque),
               (DEBUG, ''Email Author ID'', Opaque), (DEBUG, ''Transactions ID'', Opaque),
               (DEBUG, ''Generated PDF Files'', Opaque), (DEBUG, ''Email Object'', Opaque),
               (ERROR, ''sendEmail'', Caught (Error ''RCRD_HAS_BEEN_CHANGED''))]\<rparr>, [])"
  by (simp add: reduce_eval_defs env_defs fun_eq_iff)

lemma reduce_env_merge_fails_101:
  "reduce (env_merge_fails (JStr ''101'')) group_A1_V1 world0 =
     (\<lparr>sent = [], email_sent_flag = (\<lambda>t. False),
       logs = [(DEBUG, ''A1_V1'', Opaque), (DEBUG, ''Email Template ID'', Opaque),
               (DEBUG, ''Email Author ID'', Opaque), (DEBUG, ''Transactions ID'', Opaque),
               (ERROR, ''Error generating PDF for transaction 101'', Caught (Error ''RENDER_FAILED'')),
               (DEBUG, ''Generated PDF Files'', Opaque),
               (ERROR, ''reduce'', Caught (Error ''INVALID_TEMPLATE''))]\<rparr>, [])"
  by (simp add: reduce_eval_defs env_defs fun_eq_iff)

text \<open>
  Claim C2 as stated fails: the send succeeds and the save of payment 102 throws, so the
  flag of 102 is not set although the email of its group was sent.
\<close>

theorem send_succeeds_flag_unset_counterexample:
  "email_send (env_save_fails (JStr ''102'')) (email_A1_V1 [voucher ''101'', voucher ''102'']) = None
   \<and> sent (fst (reduce (env_save_fails (JStr ''102'')) group_A1_V1 world0))
       = [email_A1_V1 [voucher ''101'', voucher ''102'']]
   \<and> transactionsId_of (reduce_values group_A1_V1) = Inr [JStr ''101'', JStr ''102'']
   \<and> \<not> email_sent_flag (fst (reduce (env_save_fails (JStr ''102'')) group_A1_V1 world0)) (JStr ''102'')"
  by (simp add: reduce_env_save_fails_102 transactionsId_group_A1_V1) (simp add: env_defs)

theorem flag_follows_send_witness:
  "email_send env_send_fails (email_A1_V1 []) = Some (Error ''SSS_INVALID_TO_EMAIL'')
   \<and> email_sent_flag (send_and_mark env_send_fails (email_A1_V1 []) [JStr ''101''] world0)
       = email_sent_flag world0
   \<and> email_send env_ok (email_A1_V1 []) = None
   \<and> persist_error env_ok (JStr ''101'') = None
   \<and> persist_error env_ok (JStr ''102'') = None
   \<and> email_sent_flag (send_and_mark env_ok (email_A1_V1 []) [JStr ''101'', JStr ''102''] world0)
         (JStr ''101'')
   \<and> email_sent_flag (send_and_mark env_ok (email_A1_V1 []) [JStr ''101'', JStr ''102''] world0)
         (JStr ''102'')
   \<and> sent (fst (reduce env_send_fails group_A1_V1 world0)) = sent world0
   \<and> email_sent_flag (fst (reduce env_send_fails group_A1_V1 world0)) = email_sent_flag world0
   \<and> sent (fst (reduce env_ok group_A1_V1 world0)) \<noteq> sent world0
   \<and> transactionsId_of (reduce_values group_A1_V1) = Inr [JStr ''101'', JStr ''102'']
   \<and> email_sent_flag (fst (reduce env_ok group_A1_V1 world0)) (JStr ''101'')
   \<and> email_sent_flag (fst (reduce env_ok group_A1_V1 world0)) (JStr ''102'')
   \<and> \<not> email_sent_flag world0 (JStr ''101'')
   \<and> (\<exists>email ids. sent (fst (reduce env_ok group_A1_V1 world0)) = sent world0 @ [email]
         \<and> email_send env_ok email = None
         \<and> recipients email = key_part (reduce_key group_A1_V1) 1
         \<and> transactionsId_of (reduce_values group_A1_V1) = Inr ids \<and> JStr ''101'' \<in> set ids)
   \<and> \<not> reserved_key (reduce_key group_A1_V1)
   \<and> reduce_first_revision env_ok group_A1_V1 world0 = fst (reduce env_ok group_A1_V1 world0)"
proof -
  have a: "email_send env_send_fails (email_A1_V1 []) = Some (Error ''SSS_INVALID_TO_EMAIL'')"
    by (simp add: env_defs)
  have b: "email_send env_ok (email_A1_V1 []) = None
           \<and> (\<forall>t \<in> set [JStr ''101'', JStr ''102'']. persist_error env_ok t = None)"
    by (simp add: env_defs persist_error_def)
  have c: "sent (fst (reduce env_send_fails group_A1_V1 world0)) = sent world0"
    by (simp add: reduce_env_send_fails world0_simps)
  have d: "sent (fst (reduce env_ok group_A1_V1 world0)) \<noteq> sent world0
           \<and> \<not> email_sent_flag world0 (JStr ''101'')"
    by (simp add: reduce_env_ok world0_simps)
  note e = not_reserved_A1_V1
  note f = transactionsId_group_A1_V1
  from a b c d e f
    flag_follows_send [of env_send_fails "email_A1_V1 []" "Error ''SSS_INVALID_TO_EMAIL''"
      "[JStr ''101'']" world0 group_A1_V1 "JStr ''101''"]
    flag_follows_send [of env_ok "email_A1_V1 []" "Error ''SSS_INVALID_TO_EMAIL''"
      "[JStr ''101'', JStr ''102'']" world0 group_A1_V1 "JStr ''101''"]
  show ?thesis by simp
qed

text \<open>
  Claim C8, as amended. After a successful send, an exception on loading, setting or
  saving one payment is caught by the \<^verbatim>\<open>catch\<close> of the send block and logged once under
  \<^verbatim>\<open>sendEmail\<close>; nothing is retried and the email stays sent. The payments before the
  failing one keep their flag; the failing one and the ones after it are not updated.
\<close>

theorem persistence_failure_stops_updates:
  assumes "email_send env email = None"
    and "\<forall>t \<in> set before. persist_error env t = None"
    and "persist_error env failing = Some e"
  shows "send_and_mark env email (before @ failing # later) w =
           w\<lparr>sent := sent w @ [email],
             email_sent_flag := (\<lambda>t. t \<in> set before \<or> email_sent_flag w t),
             logs := logs w @ [(ERROR, ''sendEmail'', Caught e)]\<rparr>"
  using assms
  by (simp add: send_and_mark_def mark_email_sent_stops add_logs_def)

theorem persistence_failure_stops_updates_witness:
  "send_and_mark (env_save_fails (JStr ''102'')) (email_A1_V1 [])
       ([JStr ''101''] @ JStr ''102'' # [JStr ''103'']) world0
     = \<lparr>sent = [email_A1_V1 []],
        email_sent_flag = (\<lambda>t. t = JStr ''101''),
        logs = [(ERROR, ''sendEmail'', Caught (Error ''RCRD_HAS_BEEN_CHANGED''))]\<rparr>"
proof -
  have "email_send (env_save_fails (JStr ''102'')) (email_A1_V1 []) = None"
    by (simp add: env_defs)
  moreover have "\<forall>t \<in> set [JStr ''101'']. persist_error (env_save_fails (JStr ''102'')) t = None"
    by (simp add: env_defs persist_error_def)
  moreover have "persist_error (env_save_fails (JStr ''102'')) (JStr ''102'')
                   = Some (Error ''RCRD_HAS_BEEN_CHANGED'')"
    by (simp add: env_defs persist_error_def)
  ultimately show ?thesis
    using persistence_failure_stops_updates
      [of "env_save_fails (JStr ''102'')" "email_A1_V1 []" "[JStr ''101'']" "JStr ''102''"
          "Error ''RCRD_HAS_BEEN_CHANGED''" "[JStr ''103'']" world0]
    by (simp add: world0_def)
qed

text \<open>
  Claim C8 as stated fails: the save of payment 101 throws, the save of 102 would not,
  and 102 is left without its flag: the loop has ended.
\<close>

theorem later_payment_not_flagged_counterexample:
  "sent (fst (reduce (env_save_fails (JStr ''101'')) group_A1_V1 world0))
       = [email_A1_V1 [voucher ''101'', voucher ''102'']]
   \<and> persist_error (env_save_fails (JStr ''101'')) (JStr ''101'') = Some (Error ''RCRD_HAS_BEEN_CHANGED'')
   \<and> persist_error (env_save_fails (JStr ''101'')) (JStr ''102'') = None
   \<and> \<not> email_sent_flag (fst (reduce (env_save_fails (JStr ''101'')) group_A1_V1 world0)) (JStr ''102'')"
  by (simp add: reduce_env_save_fails_101) (simp add: env_defs persist_error_def)

lemma generate_two:
  assumes "render_pdf env (getParameter env SCRIPT_PARAM_PRINT_TEMPLATE_ID) (JStr bad) = Inl e"
    and "render_pdf env (getParameter env SCRIPT_PARAM_PRINT_TEMPLATE_ID) (JStr good) = Inr contents"
  shows "generateIndividualPaymentVoucher env [JStr bad, JStr good] =
           ([(ERROR, ''Error generating PDF for transaction '' @ bad, Caught e)],
            Inr [\<lparr>file_name = ''ACH_Payment_'' @ good @ ''.pdf'', file_contents = contents\<rparr>])"
    and "generateIndividualPaymentVoucher env [JStr good, JStr bad] =
           ([(ERROR, ''Error generating PDF for transaction '' @ bad, Caught e)],
            Inr [\<lparr>file_name = ''ACH_Payment_'' @ good @ ''.pdf'', file_contents = contents\<rparr>])"
  using assms by simp_all

text \<open>
  Claim C6, as amended. In a group of two payments where the voucher of one cannot be
  rendered, the failure is logged and the group goes on; provided the template lookup
  and the merge of the email succeed, \<^verbatim>\<open>email.send\<close> is called once, with the one voucher
  that was rendered as its only attachment, and the email is sent exactly when the
  transport accepts it.
\<close>

theorem one_voucher_of_two_fails:
  assumes "\<not> reserved_key (reduce_key ctx)"
    and "template_search env (key_part (reduce_key ctx) 0) = Inr (templateId # others)"
    and "transactionsId_of (reduce_values ctx) = Inr ids"
    and "ids = [JStr bad, JStr good] \<or> ids = [JStr good, JStr bad]"
    and "render_pdf env (getParameter env SCRIPT_PARAM_PRINT_TEMPLATE_ID) (JStr bad) = Inl e"
    and "render_pdf env (getParameter env SCRIPT_PARAM_PRINT_TEMPLATE_ID) (JStr good) = Inr contents"
    and "mergeEmail env templateId (getParameter env SCRIPT_PARAM_EMAIL_AUTHOR)
           (key_part (reduce_key ctx) 1) = Inr (subj, bdy)"
    and "email = \<lparr>author = getParameter env SCRIPT_PARAM_EMAIL_AUTHOR,
                  recipients = key_part (reduce_key ctx) 1,
                  subject = subj, body = bdy,
                  attachments = [\<lparr>file_name = ''ACH_Payment_'' @ good @ ''.pdf'',
                                  file_contents = contents\<rparr>]\<rparr>"
  shows "(ERROR, ''Error generating PDF for transaction '' @ bad, Caught e)
           \<in> set (logs (fst (reduce env ctx w)))
         \<and> length (attachments email) = 1
         \<and> sent (fst (reduce env ctx w))
             = (if email_send env email = None then sent w @ [email] else sent w)"
proof -
  have tpl: "searchRelatedEmailTemplate env (key_part (reduce_key ctx) 0) = ([], Inr templateId)"
    using assms(2) by (simp add: searchRelatedEmailTemplate_def)
  have gen: "generateIndividualPaymentVoucher env ids =
           ([(ERROR, ''Error generating PDF for transaction '' @ bad, Caught e)],
            Inr [\<lparr>file_name = ''ACH_Payment_'' @ good @ ''.pdf'', file_contents = contents\<rparr>])"
    using assms(4) generate_two [OF assms(5,6)] by auto
  let ?w = "add_logs w ([(DEBUG, reduce_key ctx, Opaque)] @ [] @
           [(DEBUG, ''Email Template ID'', Opaque), (DEBUG, ''Email Author ID'', Opaque),
            (DEBUG, ''Transactions ID'', Opaque)] @
           [(ERROR, ''Error generating PDF for transaction '' @ bad, Caught e)] @
           [(DEBUG, ''Generated PDF Files'', Opaque), (DEBUG, ''Email Object'', Opaque)])"
  have n: "notify_group env ctx w = (send_and_mark env email ids ?w, None)"
    unfolding assms(8) by (rule notify_group_sends [OF tpl assms(3) gen assms(7)])
  then have r: "fst (reduce env ctx w) = send_and_mark env email ids ?w"
    using assms(1) by (simp add: reduce_def)
  have "sent (fst (reduce env ctx w))
             = (if email_send env email = None then sent w @ [email] else sent w)"
    unfolding r by (simp add: send_and_mark_sent)
  moreover have "(ERROR, ''Error generating PDF for transaction '' @ bad, Caught e) \<in> set (logs ?w)"
    by simp
  then have "(ERROR, ''Error generating PDF for transaction '' @ bad, Caught e)
           \<in> set (logs (fst (reduce env ctx w)))"
    unfolding r
    by (cases "email_send env email";
        cases "mark_email_sent env ids (?w\<lparr>sent := sent ?w @ [email]\<rparr>)")
       (use mark_email_sent_logs [of env ids "?w\<lparr>sent := sent ?w @ [email]\<rparr>"] in
        \<open>auto simp: send_and_mark_def split: option.splits\<close>)
  moreover have "length (attachments email) = 1"
    by (simp add: assms(8))
  ultimately show ?thesis by blast
qed

theorem one_voucher_of_two_fails_witness:
  "(ERROR, ''Error generating PDF for transaction 101'', Caught (Error ''RENDER_FAILED''))
       \<in> set (logs (fst (reduce (env_render_fails (JStr ''101'')) group_A1_V1 world0)))
   \<and> length (attachments (email_A1_V1 [voucher ''102''])) = 1
   \<and> sent (fst (reduce (env_render_fails (JStr ''101'')) group_A1_V1 world0))
       = [email_A1_V1 [voucher ''102'']]"
proof -
  let ?env = "env_render_fails (JStr ''101'')"
  have 1: "\<not> reserved_key (reduce_key group_A1_V1)"
    by (rule not_reserved_A1_V1)
  have 2: "template_search ?env (key_part (reduce_key group_A1_V1) 0) = Inr (''55'' # [])"
    by (simp add: key_part_A1_V1 env_defs)
  have 3: "transactionsId_of (reduce_values group_A1_V1) = Inr [JStr ''101'', JStr ''102'']"
    by (rule transactionsId_group_A1_V1)
  have 4: "[JStr ''101'', JStr ''102''] = [JStr ''101'', JStr ''102'']
           \<or> [JStr ''101'', JStr ''102''] = [JStr ''102'', JStr ''101'']"
    by simp
  have 5: "render_pdf ?env (getParameter ?env SCRIPT_PARAM_PRINT_TEMPLATE_ID) (JStr ''101'')
             = Inl (Error ''RENDER_FAILED'')"
    by (simp add: env_defs)
  have 6: "render_pdf ?env (getParameter ?env SCRIPT_PARAM_PRINT_TEMPLATE_ID) (JStr ''102'')
             = Inr ''%PDF-1.4''"
    by (simp add: env_defs)
  have 7: "mergeEmail ?env ''55'' (getParameter ?env SCRIPT_PARAM_EMAIL_AUTHOR)
             (key_part (reduce_key group_A1_V1) 1) = Inr (''ACH payment'', ''Dear vendor'')"
    by (simp add: env_defs)
  have 8: "email_A1_V1 [voucher ''102''] =
             \<lparr>author = getParameter ?env SCRIPT_PARAM_EMAIL_AUTHOR,
              recipients = key_part (reduce_key group_A1_V1) 1,
              subject = ''ACH payment'', body = ''Dear vendor'',
              attachments = [\<lparr>file_name = ''ACH_Payment_'' @ ''102'' @ ''.pdf'',
                              file_contents = ''%PDF-1.4''\<rparr>]\<rparr>"
    by (simp add: email_A1_V1_def voucher_def key_part_A1_V1 env_defs SCRIPT_PARAM_EMAIL_AUTHOR_def)
  have 9: "email_send ?env (email_A1_V1 [voucher ''102'']) = None"
    by (simp add: env_defs)
  show ?thesis
    using one_voucher_of_two_fails [OF 1 2 3 4 5 6 7 8, of world0] 9
    by (simp add: world0_simps)
qed

text \<open>
  Claim C6 as stated fails: one of two vouchers fails to render, then \<^verbatim>\<open>render.mergeEmail\<close>
  throws, which ends the group in the outer \<^verbatim>\<open>catch\<close>: no email is sent.
\<close>

theorem one_voucher_fails_no_email_counterexample:
  "transactionsId_of (reduce_values group_A1_V1) = Inr [JStr ''101'', JStr ''102'']
   \<and> render_pdf (env_merge_fails (JStr ''101''))
        (getParameter (env_merge_fails (JStr ''101'')) SCRIPT_PARAM_PRINT_TEMPLATE_ID) (JStr ''101'')
       = Inl (Error ''RENDER_FAILED'')
   \<and> render_pdf (env_merge_fails (JStr ''101''))
        (getParameter (env_merge_fails (JStr ''101'')) SCRIPT_PARAM_PRINT_TEMPLATE_ID) (JStr ''102'')
       = Inr ''%PDF-1.4''
   \<and> (ERROR, ''Error generating PDF for transaction 101'', Caught (Error ''RENDER_FAILED''))
       \<in> set (logs (fst (reduce (env_merge_fails (JStr ''101'')) group_A1_V1 world0)))
   \<and> sent (fst (reduce (env_merge_fails (JStr ''101'')) group_A1_V1 world0)) = []"
  by (simp add: reduce_env_merge_fails_101 transactionsId_group_A1_V1) (simp add: env_defs)

lemma reduce_writes:
  "snd (reduce env ctx w) =
     (if reserved_key (reduce_key ctx)
      then (case pass_through ctx of Inl e \<Rightarrow> [] | Inr ws \<Rightarrow> ws) else [])"
  by (simp add: reduce_def split: sum.splits prod.splits option.splits)

lemma pass_through_key:
  "pass_through ctx = Inr ws \<Longrightarrow> \<exists>v. ws = [(reduce_key ctx, v)]"
  by (auto simp: pass_through_def bindE_def split: sum.splits)

lemma reduce_writes_reserved:
  assumes "(k, v) \<in> set (snd (reduce env ctx w))"
  shows "reserved_key k"
proof (cases "reserved_key (reduce_key ctx)")
  case True
  show ?thesis
  proof (cases "pass_through ctx")
    case (Inl e)
    with assms True show ?thesis by (simp add: reduce_writes)
  next
    case (Inr ws)
    then obtain v' where "ws = [(reduce_key ctx, v')]"
      using pass_through_key by blast
    with assms Inr True show ?thesis by (simp add: reduce_writes)
  qed
next
  case False
  with assms show ?thesis by (simp add: reduce_writes)
qed

lemma reduce_stage_writes:
  "snd (reduce_stage env groups w) = concat (map (\<lambda>ctx. snd (reduce env ctx w0)) groups)"
proof (induction groups arbitrary: w)
  case Nil
  then show ?case by simp
next
  case (Cons ctx groups)
  obtain w1 ws where r: "reduce env ctx w = (w1, ws)"
    by (cases "reduce env ctx w")
  obtain w2 ws' where rs: "reduce_stage env groups w1 = (w2, ws')"
    by (cases "reduce_stage env groups w1")
  have "ws = snd (reduce env ctx w0)"
    using r reduce_writes [of env ctx w] reduce_writes [of env ctx w0] by simp
  moreover have "ws' = concat (map (\<lambda>ctx. snd (reduce env ctx w0)) groups)"
    using Cons.IH [of w1] rs by simp
  ultimately show ?case
    using r rs by simp
qed

lemma reduce_stage_writes_reserved:
  "(k, v) \<in> set (snd (reduce_stage env groups w)) \<Longrightarrow> reserved_key k"
  unfolding reduce_stage_writes [of env groups w w]
  by (auto dest: reduce_writes_reserved)

lemma scan_output_reserved:
  "\<forall>(k, v) \<in> set out. reserved_key k \<Longrightarrow>
   scan_output out (s, e, n) = Inr (s', e', n') \<Longrightarrow> n' = n"
proof (induction out arbitrary: s e)
  case Nil
  then show ?case by simp
next
  case (Cons p out)
  obtain k v where p: "p = (k, v)" by (cases p)
  from Cons.prems(1) p have k: "k = ''SKIPPED_RECORDS'' \<or> k = ''ERROR_RECORDS''"
    and rest: "\<forall>(k, v) \<in> set out. reserved_key k"
    by (auto simp: reserved_key_def)
  from Cons.prems(2) p k obtain s1 e1 where "scan_output out (s1, e1, n) = Inr (s', e', n')"
    by (auto simp: bindE_def split: sum.splits if_splits)
  with Cons.IH [OF rest] show ?case by blast
qed

subsection \<open>getInputData\<close>

lemma missingParams_eq:
  "push_if (not_set (getParameter env SCRIPT_PARAM_EMAIL_AUTHOR)) ''Email Author''
     (push_if (not_set (getParameter env SCRIPT_PARAM_PRINT_TEMPLATE_ID)) ''Print Template ID''
     (push_if (not_set (getParameter env SCRIPT_PARAM_ELIGIBLE_ACH_PAYMENTS_SEARCH))
        ''Eligible ACH Payments Search'' []))
   = map fst (filter (\<lambda>p. not_set (getParameter env (snd p))) required_params)"
  by (simp add: push_if_def required_params_def)

text \<open>
  Claim C7, as amended. The script requires three parameters: the eligible-payments
  search, the print template id and the email author. When any of them is not set,
  \<^verbatim>\<open>getInputData\<close> throws an error whose message names every one that is missing, in the
  order of the checks, and the run is aborted before any record is processed: no email
  is sent and no flag changes.
\<close>

theorem getInputData_missing_parameters:
  assumes "\<exists>p \<in> set required_params. not_set (getParameter env (snd p))"
  shows "snd (getInputData env) =
           Inl (Error (''Required script parameter(s) not configured: '' @
             join '', '' (map fst (filter (\<lambda>p. not_set (getParameter env (snd p))) required_params))))
         \<and> snd (run env inputs n w) =
           Aborted (Error (''Required script parameter(s) not configured: '' @
             join '', '' (map fst (filter (\<lambda>p. not_set (getParameter env (snd p))) required_params))))
         \<and> sent (fst (run env inputs n w)) = sent w
         \<and> email_sent_flag (fst (run env inputs n w)) = email_sent_flag w"
proof -
  let ?missing = "map fst (filter (\<lambda>p. not_set (getParameter env (snd p))) required_params)"
  have ne: "?missing \<noteq> []"
    using assms by (auto simp: filter_empty_conv)
  have g: "getInputData env =
             ([(AUDIT, ''Script Parameters'', Opaque),
               (ERROR, ''Error in getInputData'',
                Caught (Error (''Required script parameter(s) not configured: '' @ join '', '' ?missing)))],
              Inl (Error (''Required script parameter(s) not configured: '' @ join '', '' ?missing)))"
    using ne unfolding getInputData_def Let_def missingParams_eq by simp
  then show ?thesis
    by (simp add: run_def)
qed

theorem getInputData_missing_parameters_witness:
  "snd (getInputData (env_ok\<lparr>getParameter :=
          map_of [(''custscript_tsc_ohs27_email_author'', ''7'')]\<rparr>)) =
     Inl (Error ''Required script parameter(s) not configured: Eligible ACH Payments Search, Print Template ID'')
   \<and> snd (run (env_ok\<lparr>getParameter := map_of [(''custscript_tsc_ohs27_email_author'', ''7'')]\<rparr>)
          scenario_inputs (JNum ''3'') world0) =
     Aborted (Error ''Required script parameter(s) not configured: Eligible ACH Payments Search, Print Template ID'')
   \<and> sent (fst (run (env_ok\<lparr>getParameter := map_of [(''custscript_tsc_ohs27_email_author'', ''7'')]\<rparr>)
          scenario_inputs (JNum ''3'') world0)) = []
   \<and> email_sent_flag (fst (run (env_ok\<lparr>getParameter :=
          map_of [(''custscript_tsc_ohs27_email_author'', ''7'')]\<rparr>)
          scenario_inputs (JNum ''3'') world0)) = (\<lambda>transactionId. False)"
  using getInputData_missing_parameters
    [of "env_ok\<lparr>getParameter := map_of [(''custscript_tsc_ohs27_email_author'', ''7'')]\<rparr>"
        scenario_inputs "JNum ''3''" world0]
  by (simp add: required_params_def not_set_def SCRIPT_PARAM_EMAIL_AUTHOR_def
      SCRIPT_PARAM_PRINT_TEMPLATE_ID_def SCRIPT_PARAM_ELIGIBLE_ACH_PAYMENTS_SEARCH_def world0_def)

text \<open>
  Claim C7 as stated fails: the recipient of the operational report is not a parameter.
  With the three parameters above and no other one configured, \<^verbatim>\<open>getInputData\<close> returns
  the search and the run goes on (\<^verbatim>\<open>summarize\<close> sends its report to the fixed address of
  line 348).
\<close>

theorem no_recipient_parameter_counterexample:
  "dom (getParameter env_ok) =
     {SCRIPT_PARAM_ELIGIBLE_ACH_PAYMENTS_SEARCH, SCRIPT_PARAM_EMAIL_AUTHOR,
      SCRIPT_PARAM_PRINT_TEMPLATE_ID}
   \<and> getInputData env_ok =
       ([(AUDIT, ''Script Parameters'', Opaque), (AUDIT, ''Input Data Records'', Opaque)],
        Inr (Some ''customsearch_eligible_ach''))"
  by (auto simp: env_ok_def getInputData_def push_if_def not_set_def Let_def
      SCRIPT_PARAM_EMAIL_AUTHOR_def SCRIPT_PARAM_PRINT_TEMPLATE_ID_def
      SCRIPT_PARAM_ELIGIBLE_ACH_PAYMENTS_SEARCH_def)

subsection \<open>The group key\<close>

lemma split_on_no_sep: "c \<notin> set s \<Longrightarrow> split_on c s = [s]"
  by (induction s) auto

lemma split_on_sep: "c \<notin> set a \<Longrightarrow> split_on c (a @ c # v) = a # split_on c v"
  by (induction a) auto

lemma key_part_roundtrip:
  assumes "CHR ''_'' \<notin> set a" and "CHR ''_'' \<notin> set v"
  shows "key_part (a @ ''_'' @ v) 0 = Some a" and "key_part (a @ ''_'' @ v) 1 = Some v"
  using assms by (simp_all add: key_part_def array_at_def split_on_sep split_on_no_sep)

lemma shuffle_keys: "map reduce_key (shuffle ws) = remdups (map fst ws)"
  by (simp add: shuffle_def o_def)

lemma shuffle_group:
  assumes "g \<in> set (shuffle ws)"
  shows "reduce_values g = map snd (filter (\<lambda>x. fst x = reduce_key g) ws)"
  using assms by (auto simp: shuffle_def)

lemma shuffle_same_group:
  assumes "(k, x) \<in> set ws" and "(k, y) \<in> set ws"
  shows "distinct (map reduce_key (shuffle ws))
         \<and> (\<exists>g \<in> set (shuffle ws). reduce_key g = k
               \<and> x \<in> set (reduce_values g) \<and> y \<in> set (reduce_values g))"
proof -
  let ?g = "\<lparr>reduce_key = k, reduce_values = map snd (filter (\<lambda>w. fst w = k) ws)\<rparr>"
  have "k \<in> set (remdups (map fst ws))"
    using assms(1) by force
  then have "?g \<in> set (shuffle ws)"
    by (simp add: shuffle_def image_iff)
  moreover have "x \<in> set (reduce_values ?g)" "y \<in> set (reduce_values ?g)"
    using assms by force+
  moreover have "reduce_key ?g = k"
    by simp
  moreover have "distinct (map reduce_key (shuffle ws))"
    by (simp add: shuffle_keys)
  ultimately show ?thesis
    by blast
qed

lemma field_at_2:
  assumes "field_at values [k, sub] = JStr s"
  shows "\<exists>f. get_prop values k = Inr f \<and> get_prop f sub = Inr (JStr s) \<and> truthy f"
proof -
  obtain f where f: "get_prop values k = Inr f"
    using assms by (cases "get_prop values k") simp_all
  then have g: "get_prop f sub = Inr (JStr s)"
    using assms by (cases "get_prop f sub") simp_all
  then have "truthy f"
    by (cases f) (simp_all split: if_splits)
  with f g show ?thesis by blast
qed

text \<open>
  Claim C9, as amended. For a record with all required fields whose account id and
  vendor id are strings without an underscore, and that do not make up one of the two
  reserved keys, \<^verbatim>\<open>map\<close> writes one order under the key account id, underscore, vendor
  id; splitting that key on the underscore gives back the two ids; and any two values
  written under that key are handed to \<^verbatim>\<open>reduce\<close> together, in the one group of that
  key, which \<^verbatim>\<open>reduce\<close> treats as a payment group of that account and that vendor.
\<close>

theorem group_key_roundtrip:
  assumes "map_value ctx = Json searchResult"
    and "get_prop searchResult ''values'' = Inr values"
    and "\<forall>f \<in> set required_fields. \<not> is_missing values (snd f)"
    and "field_at values [''account'', ''value''] = JStr a"
    and "field_at values [''entity'', ''value''] = JStr v"
    and "CHR ''_'' \<notin> set a" and "CHR ''_'' \<notin> set v"
    and "\<not> reserved_key (a @ ''_'' @ v)"
  shows "(\<exists>orderObj. snd (map_fn ctx) = Inr [(a @ ''_'' @ v, Json orderObj)]
            \<and> get_prop orderObj ''orderId'' = Inr (JStr (map_key ctx))
            \<and> get_prop orderObj ''accountId'' = Inr (JStr (a @ ''_'' @ v)))
         \<and> key_part (a @ ''_'' @ v) 0 = Some a
         \<and> key_part (a @ ''_'' @ v) 1 = Some v
         \<and> (\<forall>ws x y. (a @ ''_'' @ v, x) \<in> set ws \<and> (a @ ''_'' @ v, y) \<in> set ws \<longrightarrow>
               distinct (map reduce_key (shuffle ws))
               \<and> (\<exists>g \<in> set (shuffle ws). reduce_key g = a @ ''_'' @ v
                     \<and> x \<in> set (reduce_values g) \<and> y \<in> set (reduce_values g)
                     \<and> \<not> reserved_key (reduce_key g)
                     \<and> key_part (reduce_key g) 0 = Some a
                     \<and> key_part (reduce_key g) 1 = Some v))"
proof -
  obtain account where acc: "get_prop values ''account'' = Inr account"
    "get_prop account ''value'' = Inr (JStr a)" "truthy account"
    using field_at_2 [OF assms(4)] by blast
  obtain entity where ent: "get_prop values ''entity'' = Inr entity"
    "get_prop entity ''value'' = Inr (JStr v)" "truthy entity"
    using field_at_2 [OF assms(5)] by blast
  have nn: "values \<noteq> JUndefined" "values \<noteq> JNull"
    using acc(1) by auto
  have "filter (\<lambda>f. is_missing values (snd f)) required_fields = []"
    using assms(3) by (simp add: filter_empty_conv)
  then have m: "missingFields_of values = Inr []"
    using missingFields_of_eq [OF nn] by simp
  have k: "group_key_of values = Inr (a @ ''_'' @ v)"
    using acc ent by (simp add: group_key_of_def)
  obtain d where d: "get_prop values ''trandate'' = Inr d"
    using get_prop_total [OF nn] by blast
  obtain t where t: "get_prop values ''tranid'' = Inr t"
    using get_prop_total [OF nn] by blast
  obtain em where em: "get_prop values ''email.vendor'' = Inr em"
    using get_prop_total [OF nn] by blast
  obtain pp where pp: "get_prop values ''postingperiod'' = Inr pp"
    using get_prop_total [OF nn] by blast
  have "\<exists>period. (if truthy pp then get_prop pp ''text'' else Inr (JStr [])) = Inr period"
    by (cases pp) simp_all
  then obtain period
    where period: "(if truthy pp then get_prop pp ''text'' else Inr (JStr [])) = Inr period"
    by blast
  have "\<exists>et. get_prop entity ''text'' = Inr et"
    using ent(3) by (cases entity) simp_all
  then obtain et where et: "get_prop entity ''text'' = Inr et"
    by blast
  have o: "orderObj_of ctx values (a @ ''_'' @ v) = Inr (JObj
         [(''orderId'', JStr (map_key ctx)),
          (''accountId'', JStr (a @ ''_'' @ v)),
          (''orderDate'', d),
          (''postingPeriod'', period),
          (''orderNumber'', t),
          (''entity'', et),
          (''vendorEmail'', js_or em (JStr []))])"
    using d t em pp period ent(1) et by (simp add: orderObj_of_def)
  have w: "snd (map_fn ctx) = Inr [(a @ ''_'' @ v, JSON_stringify (JObj
         [(''orderId'', JStr (map_key ctx)),
          (''accountId'', JStr (a @ ''_'' @ v)),
          (''orderDate'', d),
          (''postingPeriod'', period),
          (''orderNumber'', t),
          (''entity'', et),
          (''vendorEmail'', js_or em (JStr []))]))]"
    using assms(1,2) m k o by (simp add: map_fn_def map_try_def Let_def)
  have "\<exists>orderObj. snd (map_fn ctx) = Inr [(a @ ''_'' @ v, Json orderObj)]
            \<and> get_prop orderObj ''orderId'' = Inr (JStr (map_key ctx))
            \<and> get_prop orderObj ''accountId'' = Inr (JStr (a @ ''_'' @ v))"
    unfolding w by (simp add: JSON_stringify_def)
  moreover have "\<forall>ws x y. (a @ ''_'' @ v, x) \<in> set ws \<and> (a @ ''_'' @ v, y) \<in> set ws \<longrightarrow>
               distinct (map reduce_key (shuffle ws))
               \<and> (\<exists>g \<in> set (shuffle ws). reduce_key g = a @ ''_'' @ v
                     \<and> x \<in> set (reduce_values g) \<and> y \<in> set (reduce_values g)
                     \<and> \<not> reserved_key (reduce_key g)
                     \<and> key_part (reduce_key g) 0 = Some a
                     \<and> key_part (reduce_key g) 1 = Some v)"
  proof (intro allI impI)
    fix ws :: "written list" and x y
    assume "(a @ ''_'' @ v, x) \<in> set ws \<and> (a @ ''_'' @ v, y) \<in> set ws"
    then obtain g where "distinct (map reduce_key (shuffle ws))" "g \<in> set (shuffle ws)"
      "reduce_key g = a @ ''_'' @ v" "x \<in> set (reduce_values g)" "y \<in> set (reduce_values g)"
      using shuffle_same_group [of "a @ ''_'' @ v" x ws y] by blast
    then show "distinct (map reduce_key (shuffle ws))
               \<and> (\<exists>g \<in> set (shuffle ws). reduce_key g = a @ ''_'' @ v
                     \<and> x \<in> set (reduce_values g) \<and> y \<in> set (reduce_values g)
                     \<and> \<not> reserved_key (reduce_key g)
                     \<and> key_part (reduce_key g) 0 = Some a
                     \<and> key_part (reduce_key g) 1 = Some v)"
      using key_part_roundtrip [OF assms(6,7)] assms(8) by auto
  qed
  ultimately show ?thesis
    using key_part_roundtrip [OF assms(6,7)] by blast
qed

lemmas map_eval_defs = map_fn_def map_try_def missingFields_of_def no_value_def push_if_def
  group_key_of_def orderObj_of_def skipped_entry_def sub_or_NA_def js_or_def JSON_stringify_def
  search_result_def Let_def

lemma map_fn_complete:
  "account \<noteq> [] \<Longrightarrow> vendor \<noteq> [] \<Longrightarrow> vendorEmail \<noteq> [] \<Longrightarrow>
   map_fn (search_result internalId account vendor vendorEmail) =
     ([(DEBUG, ''Map Input'', Opaque)],
      Inr [(account @ ''_'' @ vendor,
            Json (JObj [(''orderId'', JStr internalId),
                        (''accountId'', JStr (account @ ''_'' @ vendor)),
                        (''orderDate'', JStr ''1/15/2025''),
                        (''postingPeriod'', JStr []),
                        (''orderNumber'', JStr (''PAY'' @ internalId)),
                        (''entity'', JStr ''Acme Supply''),
                        (''vendorEmail'', JStr vendorEmail)]))])"
  by (simp add: map_eval_defs)

lemma map_fn_no_email:
  "account \<noteq> [] \<Longrightarrow> vendor \<noteq> [] \<Longrightarrow>
   map_fn (search_result internalId account vendor []) =
     ([(DEBUG, ''Map Input'', Opaque),
       (ERROR, ''Skipping record with missing required fields'',
        Text (''Record ID: '' @ internalId @ '', Missing fields: vendor email''))],
      Inr [(''SKIPPED_RECORDS'',
            Json (JObj [(''recordId'', JStr internalId),
                        (''tranid'', JStr (''PAY'' @ internalId)),
                        (''entity'', JStr ''Acme Supply''),
                        (''accountId'', JStr account),
                        (''entityId'', JStr vendor),
                        (''errorNote'', JStr ''Missing required fields: vendor email''),
                        (''missingFields'', JArr [JStr ''vendor email''])]))])"
  by (simp add: map_eval_defs)

theorem group_key_roundtrip_witness:
  "(\<exists>orderObj. snd (map_fn (search_result ''101'' ''A1'' ''V1'' ''ap@v1.example''))
                   = Inr [(''A1'' @ ''_'' @ ''V1'', Json orderObj)]
       \<and> get_prop orderObj ''orderId''
           = Inr (JStr (map_key (search_result ''101'' ''A1'' ''V1'' ''ap@v1.example'')))
       \<and> get_prop orderObj ''accountId'' = Inr (JStr (''A1'' @ ''_'' @ ''V1'')))
   \<and> key_part (''A1'' @ ''_'' @ ''V1'') 0 = Some ''A1''
   \<and> key_part (''A1'' @ ''_'' @ ''V1'') 1 = Some ''V1''
   \<and> distinct (map reduce_key (shuffle
        [(''A1_V1'', Json (JStr ''first'')), (''A1_V2'', Json JNull), (''A1_V1'', Json (JStr ''second''))]))
   \<and> (\<exists>g \<in> set (shuffle
        [(''A1_V1'', Json (JStr ''first'')), (''A1_V2'', Json JNull), (''A1_V1'', Json (JStr ''second''))]).
         reduce_key g = ''A1'' @ ''_'' @ ''V1''
         \<and> Json (JStr ''first'') \<in> set (reduce_values g)
         \<and> Json (JStr ''second'') \<in> set (reduce_values g)
         \<and> \<not> reserved_key (reduce_key g)
         \<and> key_part (reduce_key g) 0 = Some ''A1''
         \<and> key_part (reduce_key g) 1 = Some ''V1'')"
proof -
  let ?vals = "JObj
            [(''account'', JObj [(''value'', JStr ''A1''), (''text'', JStr ''Operating'')]),
             (''entity'', JObj [(''value'', JStr ''V1''), (''text'', JStr ''Acme Supply'')]),
             (''trandate'', JStr ''1/15/2025''),
             (''tranid'', JStr (''PAY'' @ ''101'')),
             (''email.vendor'', JStr ''ap@v1.example'')]"
  let ?sr = "JObj [(''recordType'', JStr ''vendorpayment''), (''id'', JStr ''101''),
                   (''values'', ?vals)]"
  have 1: "map_value (search_result ''101'' ''A1'' ''V1'' ''ap@v1.example'') = Json ?sr"
    by (simp add: search_result_def)
  have 2: "get_prop ?sr ''values'' = Inr ?vals"
    by simp
  have 3: "\<forall>f \<in> set required_fields. \<not> is_missing ?vals (snd f)"
    by (simp add: required_fields_def is_missing_def)
  have 4: "field_at ?vals [''account'', ''value''] = JStr ''A1''"
    by simp
  have 5: "field_at ?vals [''entity'', ''value''] = JStr ''V1''"
    by simp
  have 6: "CHR ''_'' \<notin> set ''A1''" "CHR ''_'' \<notin> set ''V1''"
    by simp_all
  have 7: "(''A1'' @ ''_'' @ ''V1'', Json (JStr ''first'')) \<in> set
             [(''A1_V1'', Json (JStr ''first'')), (''A1_V2'', Json JNull),
              (''A1_V1'', Json (JStr ''second''))]
           \<and> (''A1'' @ ''_'' @ ''V1'', Json (JStr ''second'')) \<in> set
             [(''A1_V1'', Json (JStr ''first'')), (''A1_V2'', Json JNull),
              (''A1_V1'', Json (JStr ''second''))]"
    by simp
  have 8: "\<not> reserved_key (''A1'' @ ''_'' @ ''V1'')"
    by (simp add: reserved_key_def)
  from group_key_roundtrip [OF 1 2 3 4 5 6 8] 7 show ?thesis
    by blast
qed

text \<open>
  Claim C9 as stated fails: with the account id \<^verbatim>\<open>A_1\<close> the key is \<^verbatim>\<open>A_1_V1\<close>, and
  \<^verbatim>\<open>reduce\<close> reads from it the account \<^verbatim>\<open>A\<close> and the vendor \<^verbatim>\<open>1\<close>.
\<close>

theorem underscore_in_id_counterexample:
  "snd (map_fn (search_result ''301'' ''A_1'' ''V1'' ''ap@v1.example'')) =
     Inr [(''A_1_V1'',
           Json (JObj [(''orderId'', JStr ''301''),
                       (''accountId'', JStr ''A_1_V1''),
                       (''orderDate'', JStr ''1/15/2025''),
                       (''postingPeriod'', JStr []),
                       (''orderNumber'', JStr ''PAY301''),
                       (''entity'', JStr ''Acme Supply''),
                       (''vendorEmail'', JStr ''ap@v1.example'')]))]
   \<and> key_part ''A_1_V1'' 0 = Some ''A''
   \<and> key_part ''A_1_V1'' 1 = Some ''1''"
  by (simp add: map_fn_complete key_part_def array_at_def)

subsection \<open>From the map stage to the summary report\<close>

lemma object_text_stringify: "object_text (JSON_stringify (JObj kvs))"
  by (simp add: object_text_def JSON_stringify_def)

lemma skipped_entry_object: "skipped_entry ctx vals m = Inr entry \<Longrightarrow> \<exists>kvs. entry = JObj kvs"
  by (auto simp: skipped_entry_def bindE_def split: sum.splits)

lemma orderObj_of_object: "orderObj_of ctx vals k = Inr orderObj \<Longrightarrow> \<exists>kvs. orderObj = JObj kvs"
  by (auto simp: orderObj_of_def bindE_def split: sum.splits)

lemma map_catch_throws:
  "map_catch ctx e = ([], Inl (ReferenceError ''values is not defined''))"
  by (simp add: map_catch_def map_catch_scope_def module_scope_def guarded_read_def
      lookup_var_def Let_def)

lemma map_try_objects:
  assumes "snd (map_try ctx) = Inr ws"
  shows "list_all (\<lambda>x. object_text (snd x)) ws"
proof (cases "bindE (JSON_parse (map_value ctx)) (\<lambda>searchResult. get_prop searchResult ''values'')")
  case (Inl e)
  with assms show ?thesis by (simp add: map_try_def)
next
  case vals: (Inr vals)
  show ?thesis
  proof (cases "missingFields_of vals")
    case (Inl e)
    with assms vals show ?thesis by (simp add: map_try_def)
  next
    case missing: (Inr missingFields)
    show ?thesis
    proof (cases "missingFields = []")
      case True
      show ?thesis
      proof (cases "group_key_of vals")
        case (Inl e)
        with assms vals missing True show ?thesis by (simp add: map_try_def)
      next
        case key: (Inr accountId)
        show ?thesis
        proof (cases "orderObj_of ctx vals accountId")
          case (Inl e)
          with assms vals missing True key show ?thesis by (simp add: map_try_def)
        next
          case (Inr orderObj)
          then obtain kvs where "orderObj = JObj kvs"
            using orderObj_of_object by blast
          with assms vals missing True key Inr show ?thesis
            by (auto simp: map_try_def object_text_stringify)
        qed
      qed
    next
      case False
      show ?thesis
      proof (cases "skipped_entry ctx vals missingFields")
        case (Inl e)
        with assms vals missing False show ?thesis by (simp add: map_try_def Let_def)
      next
        case (Inr entry)
        then obtain kvs where "entry = JObj kvs"
          using skipped_entry_object by blast
        with assms vals missing False Inr show ?thesis
          by (auto simp: map_try_def Let_def object_text_stringify)
      qed
    qed
  qed
qed

lemma map_fn_objects:
  assumes "snd (map_fn ctx) = Inr ws"
  shows "list_all (\<lambda>x. object_text (snd x)) ws"
proof (cases "map_try ctx")
  case (Pair l r)
  show ?thesis
  proof (cases r)
    case (Inl e)
    with Pair assms show ?thesis by (simp add: map_fn_def map_catch_throws)
  next
    case (Inr ws')
    with Pair assms have "ws' = ws" by (simp add: map_fn_def)
    with Pair Inr map_try_objects [of ctx ws] show ?thesis by simp
  qed
qed

lemma map_stage_objects: "list_all (\<lambda>x. object_text (snd x)) (snd (map_stage inputs))"
proof (induction inputs)
  case Nil
  then show ?case by (simp add: map_stage_def)
next
  case (Cons ctx inputs)
  have "list_all (\<lambda>x. object_text (snd x))
          (case snd (map_fn ctx) of Inl e \<Rightarrow> [] | Inr ws \<Rightarrow> ws)"
    using map_fn_objects [of ctx] by (cases "snd (map_fn ctx)") simp_all
  with Cons show ?case by (simp add: map_stage_def)
qed

lemma sequenceE_parse:
  "list_all object_text vs \<Longrightarrow> sequenceE (map JSON_parse vs) = Inr (map json_value vs)"
proof (induction vs)
  case Nil
  then show ?case by simp
next
  case (Cons v vs)
  then show ?case by (cases v) (simp_all add: object_text_def)
qed

lemma pass_through_objects:
  assumes "list_all object_text (reduce_values ctx)"
  shows "pass_through ctx =
           Inr [(reduce_key ctx, Json (json_norm (JArr (map json_value (reduce_values ctx)))))]"
  using sequenceE_parse [OF assms] by (simp add: pass_through_def JSON_stringify_def)

lemma reduce_shuffle_writes:
  assumes "list_all (\<lambda>x. object_text (snd x)) ws" and "g \<in> set (shuffle ws)"
  shows "snd (reduce env g w) =
           (if reserved_key (reduce_key g)
            then [(reduce_key g, Json (bucket_array ws (reduce_key g)))] else [])"
proof -
  have v: "reduce_values g = map snd (filter (\<lambda>x. fst x = reduce_key g) ws)"
    using assms(2) by (rule shuffle_group)
  have "list_all object_text (reduce_values g)"
    unfolding v using assms(1) by (induction ws) auto
  then show ?thesis
    using v by (simp add: reduce_writes pass_through_objects bucket_array_def)
qed

lemma reduce_stage_shuffle_writes:
  assumes "list_all (\<lambda>x. object_text (snd x)) ws"
  shows "snd (reduce_stage env (shuffle ws) w) =
           concat (map (\<lambda>k. if reserved_key k then [(k, Json (bucket_array ws k))] else [])
                       (remdups (map fst ws)))"
proof -
  have "map (\<lambda>g. snd (reduce env g w)) (shuffle ws)
        = map (\<lambda>g. if reserved_key (reduce_key g)
                    then [(reduce_key g, Json (bucket_array ws (reduce_key g)))] else [])
              (shuffle ws)"
    using reduce_shuffle_writes [OF assms] by simp
  also have "\<dots> = map (\<lambda>k. if reserved_key k then [(k, Json (bucket_array ws k))] else [])
                       (map reduce_key (shuffle ws))"
    by (simp add: o_def)
  finally show ?thesis
    unfolding reduce_stage_writes [of env "shuffle ws" w w] shuffle_keys by simp
qed

lemma bucket_array_is_array:
  "bucket_array ws k =
     JArr (map (\<lambda>x. if unserialisable x then JNull else json_norm x)
            (map json_value (map snd (filter (\<lambda>x. fst x = k) ws))))"
  by (simp add: bucket_array_def)

lemma scan_buckets:
  assumes "distinct ks"
  shows "scan_output
           (concat (map (\<lambda>k. if reserved_key k then [(k, Json (bucket_array ws k))] else []) ks))
           (s, e, c)
         = Inr (if ''SKIPPED_RECORDS'' \<in> set ks then bucket_array ws ''SKIPPED_RECORDS'' else s,
                if ''ERROR_RECORDS'' \<in> set ks then bucket_array ws ''ERROR_RECORDS'' else e,
                c)"
  using assms
proof (induction ks arbitrary: s e)
  case Nil
  then show ?case by simp
next
  case (Cons k ks)
  have len: "\<And>k. js_length (bucket_array ws k)
                = Inr (Some (length (filter (\<lambda>x. fst x = k) ws)))"
    by (simp add: bucket_array_is_array)
  from Cons.prems have d: "distinct ks" and nk: "k \<notin> set ks"
    by simp_all
  consider (skipped) "k = ''SKIPPED_RECORDS''" | (errors) "k = ''ERROR_RECORDS''"
    | (group) "\<not> reserved_key k"
    by (auto simp: reserved_key_def)
  then show ?case
  proof cases
    case skipped
    with nk Cons.IH [OF d] show ?thesis
      by (simp add: reserved_key_def len)
  next
    case errors
    with nk Cons.IH [OF d] show ?thesis
      by (simp add: reserved_key_def len)
  next
    case group
    then have "k \<noteq> ''SKIPPED_RECORDS''" "k \<noteq> ''ERROR_RECORDS''"
      by (auto simp: reserved_key_def)
    with group Cons.IH [OF d] show ?thesis
      by simp
  qed
qed

lemma detail_of_object: "is_object x \<Longrightarrow> \<exists>d. detail_of x = Inr d"
  by (cases x) (simp_all add: detail_of_def)

lemma details_of_objects: "list_all is_object xs \<Longrightarrow> \<exists>ds. sequenceE (map detail_of xs) = Inr ds"
proof (induction xs)
  case Nil
  then show ?case by simp
next
  case (Cons x xs)
  then obtain d ds where "detail_of x = Inr d" "sequenceE (map detail_of xs) = Inr ds"
    using detail_of_object [of x] by auto
  then show ?case by simp
qed

lemma norm_object: "is_object x \<Longrightarrow> \<not> unserialisable x \<and> is_object (json_norm x)"
  by (cases x) simp_all

lemma count_and_details_bucket:
  assumes "list_all (\<lambda>x. object_text (snd x)) ws"
  shows "\<exists>ds. count_and_details (bucket_array ws k) = Inr (written_under k ws, ds)"
proof -
  let ?xs = "map (\<lambda>x. if unserialisable x then JNull else json_norm x)
               (map json_value (map snd (filter (\<lambda>x. fst x = k) ws)))"
  have "list_all is_object ?xs"
    using assms by (induction ws) (auto simp: object_text_def norm_object)
  then obtain ds where "sequenceE (map detail_of ?xs) = Inr ds"
    using details_of_objects by blast
  then show ?thesis
    by (simp add: bucket_array_is_array count_and_details_def written_under_def)
qed

lemma bucket_array_absent: "k \<notin> set (map fst ws) \<Longrightarrow> bucket_array ws k = JArr []"
proof -
  assume "k \<notin> set (map fst ws)"
  then have "filter (\<lambda>x. fst x = k) ws = []"
    by (auto simp: filter_empty_conv)
  then show ?thesis by (simp add: bucket_array_def)
qed

lemma summarize_shuffle:
  assumes "list_all (\<lambda>x. object_text (snd x)) ws"
  shows "\<exists>r. summarize \<lparr>summary_output = snd (reduce_stage env (shuffle ws) w), totalRecords = n\<rparr>
               = Inr r
            \<and> successfullyProcessed r = 0
            \<and> skippedRecords_count r = written_under ''SKIPPED_RECORDS'' ws
            \<and> errorRecords_count r = written_under ''ERROR_RECORDS'' ws"
proof -
  have scan: "scan_output (snd (reduce_stage env (shuffle ws) w)) (JArr [], JArr [], 0)
        = Inr (bucket_array ws ''SKIPPED_RECORDS'', bucket_array ws ''ERROR_RECORDS'', 0)"
    unfolding reduce_stage_shuffle_writes [OF assms]
    using scan_buckets [of "remdups (map fst ws)" ws "JArr []" "JArr []" 0]
          bucket_array_absent [of "''SKIPPED_RECORDS''" ws]
          bucket_array_absent [of "''ERROR_RECORDS''" ws]
    by (simp split: if_splits)
  obtain sd where sd: "count_and_details (bucket_array ws ''SKIPPED_RECORDS'')
                         = Inr (written_under ''SKIPPED_RECORDS'' ws, sd)"
    using count_and_details_bucket [OF assms] by blast
  obtain ed where ed: "count_and_details (bucket_array ws ''ERROR_RECORDS'')
                         = Inr (written_under ''ERROR_RECORDS'' ws, ed)"
    using count_and_details_bucket [OF assms] by blast
  show ?thesis
    using scan sd ed by (simp add: summarize_def)
qed

text \<open>
  Claim C4, as amended. The skipped count of the summary report is the number of
  entries written under \<^verbatim>\<open>SKIPPED_RECORDS\<close> and its error count the number of entries
  written under \<^verbatim>\<open>ERROR_RECORDS\<close>: they count records, not keys. This holds for whatever
  the map stage wrote, as long as every value is the JSON text of an object, which is
  the case for all that \<^verbatim>\<open>map\<close> writes; so every run that \<^verbatim>\<open>getInputData\<close> lets start ends
  with such a report.
\<close>

theorem report_counts_bucket_entries:
  "(list_all (\<lambda>x. object_text (snd x)) ws \<longrightarrow>
      (\<exists>r. summarize \<lparr>summary_output = snd (reduce_stage env (shuffle ws) w), totalRecords = n\<rparr>
               = Inr r
           \<and> skippedRecords_count r = written_under ''SKIPPED_RECORDS'' ws
           \<and> errorRecords_count r = written_under ''ERROR_RECORDS'' ws))
   \<and> (snd (getInputData env) = Inr searchObj \<longrightarrow>
      (\<exists>r. snd (run env inputs n w) = Finished (Inr r)
           \<and> skippedRecords_count r = written_under ''SKIPPED_RECORDS'' (snd (map_stage inputs))
           \<and> errorRecords_count r = written_under ''ERROR_RECORDS'' (snd (map_stage inputs))))"
proof (intro conjI impI)
  assume "list_all (\<lambda>x. object_text (snd x)) ws"
  then show "\<exists>r. summarize \<lparr>summary_output = snd (reduce_stage env (shuffle ws) w), totalRecords = n\<rparr>
               = Inr r
           \<and> skippedRecords_count r = written_under ''SKIPPED_RECORDS'' ws
           \<and> errorRecords_count r = written_under ''ERROR_RECORDS'' ws"
    using summarize_shuffle by blast
next
  assume g: "snd (getInputData env) = Inr searchObj"
  obtain l where l: "getInputData env = (l, Inr searchObj)"
    using g by (cases "getInputData env") simp
  obtain l' ws' where m: "map_stage inputs = (l', ws')"
    by (cases "map_stage inputs")
  have o: "list_all (\<lambda>x. object_text (snd x)) ws'"
    using map_stage_objects [of inputs] m by simp
  have "snd (run env inputs n w) =
          Finished (summarize \<lparr>summary_output =
             snd (reduce_stage env (shuffle ws') (add_logs w (l @ l'))), totalRecords = n\<rparr>)"
    using l m by (simp add: run_def split: prod.splits)
  then show "\<exists>r. snd (run env inputs n w) = Finished (Inr r)
           \<and> skippedRecords_count r = written_under ''SKIPPED_RECORDS'' (snd (map_stage inputs))
           \<and> errorRecords_count r = written_under ''ERROR_RECORDS'' (snd (map_stage inputs))"
    using summarize_shuffle [OF o, of env "add_logs w (l @ l')" n] m by auto
qed

lemma map_stage_two_skipped:
  "snd (map_stage two_skipped_inputs) =
     [(''SKIPPED_RECORDS'',
       Json (JObj [(''recordId'', JStr ''201''), (''tranid'', JStr ''PAY201''),
                   (''entity'', JStr ''Acme Supply''), (''accountId'', JStr ''A1''),
                   (''entityId'', JStr ''V1''),
                   (''errorNote'', JStr ''Missing required fields: vendor email''),
                   (''missingFields'', JArr [JStr ''vendor email''])])),
      (''SKIPPED_RECORDS'',
       Json (JObj [(''recordId'', JStr ''202''), (''tranid'', JStr ''PAY202''),
                   (''entity'', JStr ''Acme Supply''), (''accountId'', JStr ''A1''),
                   (''entityId'', JStr ''V2''),
                   (''errorNote'', JStr ''Missing required fields: vendor email''),
                   (''missingFields'', JArr [JStr ''vendor email''])]))]"
  by (simp add: map_stage_def two_skipped_inputs_def map_fn_no_email)

lemma shuffle_two_skipped:
  "shuffle (snd (map_stage two_skipped_inputs)) =
     [\<lparr>reduce_key = ''SKIPPED_RECORDS'',
       reduce_values =
         [Json (JObj [(''recordId'', JStr ''201''), (''tranid'', JStr ''PAY201''),
                   (''entity'', JStr ''Acme Supply''), (''accountId'', JStr ''A1''),
                   (''entityId'', JStr ''V1''),
                   (''errorNote'', JStr ''Missing required fields: vendor email''),
                   (''missingFields'', JArr [JStr ''vendor email''])]),
          Json (JObj [(''recordId'', JStr ''202''), (''tranid'', JStr ''PAY202''),
                   (''entity'', JStr ''Acme Supply''), (''accountId'', JStr ''A1''),
                   (''entityId'', JStr ''V2''),
                   (''errorNote'', JStr ''Missing required fields: vendor email''),
                   (''missingFields'', JArr [JStr ''vendor email''])])]\<rparr>]"
  by (simp add: map_stage_two_skipped shuffle_def)

text \<open>
  Claim C4 as stated fails: two records without a vendor email give one key,
  \<^verbatim>\<open>SKIPPED_RECORDS\<close>, and a report with the counts 0, 2 and 0.
\<close>

theorem counts_are_not_keys_counterexample:
  "report_counts (summarize
       \<lparr>summary_output = snd (reduce_stage env_ok (shuffle (snd (map_stage two_skipped_inputs))) world0),
        totalRecords = JNum ''2''\<rparr>) = Some (0, 2, 0)
   \<and> length (shuffle (snd (map_stage two_skipped_inputs))) = 1"
  by (simp add: shuffle_two_skipped reduce_def reserved_key_def pass_through_def
      JSON_stringify_def summarize_def count_and_details_def detail_of_def report_counts_def)

lemma map_stage_scenario:
  "snd (map_stage scenario_inputs) =
     [(''A1_V1'',
       Json (JObj [(''orderId'', JStr ''101''), (''accountId'', JStr ''A1_V1''),
                   (''orderDate'', JStr ''1/15/2025''), (''postingPeriod'', JStr []),
                   (''orderNumber'', JStr ''PAY101''), (''entity'', JStr ''Acme Supply''),
                   (''vendorEmail'', JStr ''ap@v1.example'')])),
      (''SKIPPED_RECORDS'',
       Json (JObj [(''recordId'', JStr ''102''), (''tranid'', JStr ''PAY102''),
                   (''entity'', JStr ''Acme Supply''), (''accountId'', JStr ''A1''),
                   (''entityId'', JStr ''V1''),
                   (''errorNote'', JStr ''Missing required fields: vendor email''),
                   (''missingFields'', JArr [JStr ''vendor email''])])),
      (''A1_V2'',
       Json (JObj [(''orderId'', JStr ''103''), (''accountId'', JStr ''A1_V2''),
                   (''orderDate'', JStr ''1/15/2025''), (''postingPeriod'', JStr []),
                   (''orderNumber'', JStr ''PAY103''), (''entity'', JStr ''Acme Supply''),
                   (''vendorEmail'', JStr ''ap@v2.example'')]))]"
  by (simp add: map_stage_def scenario_inputs_def map_fn_no_email map_fn_complete)

lemma reduce_stage_scenario_sent:
  "sent (fst (reduce_stage env_ok (shuffle (snd (map_stage scenario_inputs))) world0)) =
     [\<lparr>author = Some ''7'', recipients = Some ''V1'', subject = ''ACH payment'',
       body = ''Dear vendor'', attachments = [voucher ''101'']\<rparr>,
      \<lparr>author = Some ''7'', recipients = Some ''V2'', subject = ''ACH payment'',
       body = ''Dear vendor'', attachments = [voucher ''103'']\<rparr>]"
  by (simp add: map_stage_scenario shuffle_def reduce_def notify_group_def
      searchRelatedEmailTemplate_def transactionsId_of_def send_and_mark_def persist_error_def
      key_part_def array_at_def reserved_key_def world0_def add_logs_def Let_def
      pass_through_def JSON_stringify_def
      SCRIPT_PARAM_EMAIL_AUTHOR_def SCRIPT_PARAM_PRINT_TEMPLATE_ID_def voucher_def env_ok_def)

text \<open>
  Claim C10. \<^verbatim>\<open>reduce\<close> writes only under \<^verbatim>\<open>SKIPPED_RECORDS\<close> and \<^verbatim>\<open>ERROR_RECORDS\<close>, and
  nothing for a group key. Whatever the groups, a summary report built from the output
  of the reduce stage has \<^verbatim>\<open>successfullyProcessed\<close> equal to 0; and every run that
  \<^verbatim>\<open>getInputData\<close> lets start ends with such a report.
\<close>

theorem successfullyProcessed_is_zero:
  "(\<forall>(k, v) \<in> set (snd (reduce env ctx w)). reserved_key k)
   \<and> (\<not> reserved_key (reduce_key ctx) \<longrightarrow> snd (reduce env ctx w) = [])
   \<and> (\<forall>r. summarize \<lparr>summary_output = snd (reduce_stage env groups w), totalRecords = n\<rparr> = Inr r
          \<longrightarrow> successfullyProcessed r = 0)
   \<and> (snd (getInputData env) = Inr searchObj \<longrightarrow>
        (\<exists>r. snd (run env inputs n w) = Finished (Inr r) \<and> successfullyProcessed r = 0))"
proof (intro conjI allI impI)
  show "\<forall>(k, v) \<in> set (snd (reduce env ctx w)). reserved_key k"
    using reduce_writes_reserved by blast
next
  assume "\<not> reserved_key (reduce_key ctx)"
  then show "snd (reduce env ctx w) = []"
    by (simp add: reduce_writes)
next
  fix r
  assume a: "summarize \<lparr>summary_output = snd (reduce_stage env groups w), totalRecords = n\<rparr> = Inr r"
  then obtain s e c where sc: "scan_output (snd (reduce_stage env groups w)) (JArr [], JArr [], 0)
                               = Inr (s, e, c)"
    and "successfullyProcessed r = c"
    by (auto simp: summarize_def bindE_def split: sum.splits prod.splits)
  moreover have "\<forall>(k, v) \<in> set (snd (reduce_stage env groups w)). reserved_key k"
    using reduce_stage_writes_reserved by blast
  ultimately show "successfullyProcessed r = 0"
    using scan_output_reserved by blast
next
  assume g: "snd (getInputData env) = Inr searchObj"
  obtain l where l: "getInputData env = (l, Inr searchObj)"
    using g by (cases "getInputData env") simp
  obtain l' ws' where m: "map_stage inputs = (l', ws')"
    by (cases "map_stage inputs")
  have o: "list_all (\<lambda>x. object_text (snd x)) ws'"
    using map_stage_objects [of inputs] m by simp
  have "snd (run env inputs n w) =
          Finished (summarize \<lparr>summary_output =
             snd (reduce_stage env (shuffle ws') (add_logs w (l @ l'))), totalRecords = n\<rparr>)"
    using l m by (simp add: run_def split: prod.splits)
  then show "\<exists>r. snd (run env inputs n w) = Finished (Inr r) \<and> successfullyProcessed r = 0"
    using summarize_shuffle [OF o, of env "add_logs w (l @ l')" n] by auto
qed

text \<open>
  The scenario of the specification: two groups are emailed, one record is skipped, and
  \<^verbatim>\<open>successfullyProcessed\<close> is 0.
\<close>

theorem successfullyProcessed_is_zero_witness:
  "(\<exists>r. summarize
         \<lparr>summary_output = snd (reduce_stage env_ok (shuffle (snd (map_stage scenario_inputs))) world0),
          totalRecords = JNum ''3''\<rparr> = Inr r
       \<and> successfullyProcessed r = 0)
   \<and> (\<exists>r. snd (run env_ok scenario_inputs (JNum ''3'') world0) = Finished (Inr r)
       \<and> successfullyProcessed r = 0)
   \<and> length (sent (fst (reduce_stage env_ok (shuffle (snd (map_stage scenario_inputs))) world0))) = 2
   \<and> \<not> reserved_key (reduce_key group_A1_V1)
   \<and> snd (reduce env_ok group_A1_V1 world0) = []"
proof -
  obtain r where r: "summarize
         \<lparr>summary_output = snd (reduce_stage env_ok (shuffle (snd (map_stage scenario_inputs))) world0),
          totalRecords = JNum ''3''\<rparr> = Inr r"
    using summarize_shuffle [OF map_stage_objects] by blast
  have e: "length (sent (fst (reduce_stage env_ok (shuffle (snd (map_stage scenario_inputs))) world0))) = 2"
    by (simp add: reduce_stage_scenario_sent)
  have g: "snd (getInputData env_ok) = Inr (Some ''customsearch_eligible_ach'')"
    by (simp add: env_ok_def getInputData_def push_if_def not_set_def Let_def
      SCRIPT_PARAM_EMAIL_AUTHOR_def SCRIPT_PARAM_PRINT_TEMPLATE_ID_def
      SCRIPT_PARAM_ELIGIBLE_ACH_PAYMENTS_SEARCH_def)
  show ?thesis
    using successfullyProcessed_is_zero
      [of env_ok group_A1_V1 world0 "shuffle (snd (map_stage scenario_inputs))" "JNum ''3''"
          "Some ''customsearch_eligible_ach''" scenario_inputs]
      r e g not_reserved_A1_V1
    by blast
qed

theorem report_counts_bucket_entries_witness:
  "(\<exists>r. summarize
          \<lparr>summary_output = snd (reduce_stage env_ok (shuffle
              [(''ERROR_RECORDS'', Json (JObj [(''recordId'', JStr ''301'')])),
               (''A1_V1'', Json (JObj [(''orderId'', JStr ''302'')])),
               (''SKIPPED_RECORDS'', Json (JObj [(''recordId'', JStr ''303'')])),
               (''ERROR_RECORDS'', Json (JObj [(''recordId'', JStr ''304'')]))]) world0),
           totalRecords = JNum ''4''\<rparr> = Inr r
        \<and> skippedRecords_count r = 1 \<and> errorRecords_count r = 2)
   \<and> (\<exists>r. snd (run env_ok scenario_inputs (JNum ''3'') world0) = Finished (Inr r)
        \<and> skippedRecords_count r = 1 \<and> errorRecords_count r = 0)"
proof -
  let ?ws = "[(''ERROR_RECORDS'', Json (JObj [(''recordId'', JStr ''301'')])),
               (''A1_V1'', Json (JObj [(''orderId'', JStr ''302'')])),
               (''SKIPPED_RECORDS'', Json (JObj [(''recordId'', JStr ''303'')])),
               (''ERROR_RECORDS'', Json (JObj [(''recordId'', JStr ''304'')]))]"
  have 1: "list_all (\<lambda>x. object_text (snd x)) ?ws"
    by (simp add: object_text_def)
  have 2: "written_under ''SKIPPED_RECORDS'' ?ws = 1" "written_under ''ERROR_RECORDS'' ?ws = 2"
    by (simp_all add: written_under_def)
  have 3: "snd (getInputData env_ok) = Inr (Some ''customsearch_eligible_ach'')"
    by (simp add: env_ok_def getInputData_def push_if_def not_set_def Let_def
      SCRIPT_PARAM_EMAIL_AUTHOR_def SCRIPT_PARAM_PRINT_TEMPLATE_ID_def
      SCRIPT_PARAM_ELIGIBLE_ACH_PAYMENTS_SEARCH_def)
  have 4: "written_under ''SKIPPED_RECORDS'' (snd (map_stage scenario_inputs)) = 1"
    "written_under ''ERROR_RECORDS'' (snd (map_stage scenario_inputs)) = 0"
    by (simp_all add: written_under_def map_stage_scenario)
  from report_counts_bucket_entries
    [of ?ws env_ok world0 "JNum ''4''" "Some ''customsearch_eligible_ach''" scenario_inputs] 1 2
  have a: "\<exists>r. summarize \<lparr>summary_output = snd (reduce_stage env_ok (shuffle ?ws) world0),
                           totalRecords = JNum ''4''\<rparr> = Inr r
        \<and> skippedRecords_count r = 1 \<and> errorRecords_count r = 2"
    by simp
  from report_counts_bucket_entries
    [of ?ws env_ok world0 "JNum ''3''" "Some ''customsearch_eligible_ach''" scenario_inputs] 3 4
  have b: "\<exists>r. snd (run env_ok scenario_inputs (JNum ''3'') world0) = Finished (Inr r)
        \<and> skippedRecords_count r = 1 \<and> errorRecords_count r = 0"
    by simp
  from a b show ?thesis by blast
qed

end
